theory Spec2Isabelle
  imports Main "HOL-Library.Multiset" "HOL-Library.Sublist"
begin

section \<open>Values, errors and the outside world\<close>

text \<open>
  The generator in \<^verbatim>\<open>tools/generate_data_static.py\<close> works on data loaded from JSON
  (the projects) and YAML (the static category plan) and produces a nested dictionary
  that is dumped as YAML. Everything annotated \<^verbatim>\<open>Any\<close> in the source is a value of the
  type \<open>json\<close> below. A Python \<^verbatim>\<open>dict\<close> with string keys is an association list in
  insertion order (a loaded dictionary has no repeated key; on a list that has one,
  \<open>map_of\<close> reads the first). \<^verbatim>\<open>None\<close> is \<open>JNull\<close>. Floating point numbers are left
  out. Characters are read as code points below 256.
\<close>

datatype json =
    JNull
  | JBool bool
  | JInt int
  | JStr string
  | JList "json list"
  | JDict "(string \<times> json) list"

type_synonym pydict = "(string \<times> json) list"

datatype error = AttributeError | TypeError | KeyError | IndexError | RequestException | OSError

text \<open>
  The outside world: what an HTTP GET of a URL answers (\<open>None\<close> for a transport failure,
  a timeout or a non-success status), whether a file can be opened and written under a
  directory, and whether the logo directory can be created. The files written so far are
  state, keyed by directory and file name; a write that fails leaves them as they were.
\<close>

record world =
  http_get :: "string \<Rightarrow> string option"
  write_ok :: "string \<Rightarrow> string \<Rightarrow> bool"
  mkdir_ok :: "string \<Rightarrow> bool"

type_synonym files = "(string \<times> string) \<rightharpoonup> string"

subsection \<open>Python primitives\<close>

text \<open>Truthiness, as tested by \<^verbatim>\<open>if x:\<close> and \<^verbatim>\<open>x or y\<close>.\<close>

fun py_truthy :: "json \<Rightarrow> bool" where
  "py_truthy JNull = False"
| "py_truthy (JBool b) = b"
| "py_truthy (JInt n) = (n \<noteq> 0)"
| "py_truthy (JStr s) = (s \<noteq> [])"
| "py_truthy (JList xs) = (xs \<noteq> [])"
| "py_truthy (JDict d) = (d \<noteq> [])"

text \<open>\<^verbatim>\<open>d.get(k, default)\<close> on a dictionary, and on a value that may not be one.\<close>

definition dict_get :: "pydict \<Rightarrow> string \<Rightarrow> json \<Rightarrow> json" where
  "dict_get d k dflt = (case map_of d k of None \<Rightarrow> dflt | Some v \<Rightarrow> v)"

fun py_get :: "json \<Rightarrow> string \<Rightarrow> json \<Rightarrow> error + json" where
  "py_get (JDict d) k dflt = Inr (dict_get d k dflt)"
| "py_get _ k dflt = Inl AttributeError"

text \<open>\<^verbatim>\<open>d[k] = v\<close>: an existing key keeps its place, a new key goes last.\<close>

fun dict_set :: "'k \<Rightarrow> 'v \<Rightarrow> ('k \<times> 'v) list \<Rightarrow> ('k \<times> 'v) list" where
  "dict_set k v [] = [(k, v)]"
| "dict_set k v ((k', v') # d) =
     (if k' = k then (k', v) # d else (k', v') # dict_set k v d)"

text \<open>\<^verbatim>\<open>x[0]\<close>: the keys of a loaded dictionary are strings, so \<^verbatim>\<open>d[0]\<close> is a KeyError.\<close>

fun py_getitem0 :: "json \<Rightarrow> error + json" where
  "py_getitem0 (JList []) = Inl IndexError"
| "py_getitem0 (JList (x # xs)) = Inr x"
| "py_getitem0 (JStr []) = Inl IndexError"
| "py_getitem0 (JStr (c # cs)) = Inr (JStr [c])"
| "py_getitem0 (JDict d) = Inl KeyError"
| "py_getitem0 _ = Inl TypeError"

text \<open>\<^verbatim>\<open>for x in v\<close>: a list gives its elements, a string its characters, a dictionary its keys.\<close>

fun py_iter :: "json \<Rightarrow> error + json list" where
  "py_iter (JList xs) = Inr xs"
| "py_iter (JStr s) = Inr (map (\<lambda>c. JStr [c]) s)"
| "py_iter (JDict d) = Inr (map (\<lambda>kv. JStr (fst kv)) d)"
| "py_iter _ = Inl TypeError"

text \<open>
  A value used as a dictionary key or set member: lists and dictionaries are unhashable,
  and \<^verbatim>\<open>True == 1\<close>, \<^verbatim>\<open>False == 0\<close> as keys.
\<close>

fun py_key :: "json \<Rightarrow> error + json" where
  "py_key (JBool b) = Inr (JInt (if b then 1 else 0))"
| "py_key (JList xs) = Inl TypeError"
| "py_key (JDict d) = Inl TypeError"
| "py_key v = Inr v"

text \<open>\<^verbatim>\<open>s.split(sep)\<close> and \<^verbatim>\<open>s.split(sep, maxsplit=n)\<close> for a one-character separator.\<close>

fun py_split :: "char \<Rightarrow> string \<Rightarrow> string list" where
  "py_split c [] = [[]]"
| "py_split c (x # xs) =
     (if x = c then [] # py_split c xs
      else (case py_split c xs of [] \<Rightarrow> [[x]] | w # ws \<Rightarrow> (x # w) # ws))"

fun py_split_max :: "nat \<Rightarrow> char \<Rightarrow> string \<Rightarrow> string list" where
  "py_split_max 0 c s = [s]"
| "py_split_max (Suc n) c [] = [[]]"
| "py_split_max (Suc n) c (x # xs) =
     (if x = c then [] # py_split_max n c xs
      else (case py_split_max (Suc n) c xs of [] \<Rightarrow> [[x]] | w # ws \<Rightarrow> (x # w) # ws))"

text \<open>\<^verbatim>\<open>xs[-1]\<close> and \<^verbatim>\<open>xs[0]\<close> on a list.\<close>

definition py_last :: "'a list \<Rightarrow> error + 'a" where
  "py_last xs = (case xs of [] \<Rightarrow> Inl IndexError | _ \<Rightarrow> Inr (last xs))"

definition py_first :: "'a list \<Rightarrow> error + 'a" where
  "py_first xs = (case xs of [] \<Rightarrow> Inl IndexError | x # _ \<Rightarrow> Inr x)"

text \<open>
  \<^verbatim>\<open>s.strip()\<close>: the characters below 256 that \<^verbatim>\<open>str.isspace\<close> accepts are 9 to 13,
  28 to 32, 133 and 160.
\<close>

definition py_isspace :: "char \<Rightarrow> bool" where
  "py_isspace c =
     (let n = (of_char c :: nat)
      in (9 \<le> n \<and> n \<le> 13) \<or> (28 \<le> n \<and> n \<le> 32) \<or> n = 133 \<or> n = 160)"

definition py_strip :: "string \<Rightarrow> string" where
  "py_strip s = rev (dropWhile py_isspace (rev (dropWhile py_isspace s)))"

section \<open>Logo download\<close>

definition placeholder :: string where
  "placeholder = ''placeholder.svg''"

text \<open>
  The body of the \<^verbatim>\<open>try\<close> block of \<^verbatim>\<open>download_logo\<close>: the file name is computed first,
  then the GET, then the write. A \<^verbatim>\<open>url\<close> that is not a string has no \<^verbatim>\<open>split\<close>.
\<close>

definition download_logo_try :: "world \<Rightarrow> json \<Rightarrow> string \<Rightarrow> files \<Rightarrow> error + (string \<times> files)" where
  "download_logo_try w url dest fs =
     (case url of
        JStr u \<Rightarrow>
          (case py_last (py_split CHR ''/'' u) of
             Inl e \<Rightarrow> Inl e
           | Inr seg \<Rightarrow>
               (case py_first (py_split CHR ''?'' seg) of
                  Inl e \<Rightarrow> Inl e
                | Inr file_name \<Rightarrow>
                    (case http_get w u of
                       None \<Rightarrow> Inl RequestException
                     | Some content \<Rightarrow>
                         if write_ok w dest file_name
                         then Inr (file_name, fs((dest, file_name) \<mapsto> content))
                         else Inl OSError)))
      | _ \<Rightarrow> Inl AttributeError)"

text \<open>\<^verbatim>\<open>except Exception: return "placeholder.svg"\<close>.\<close>

definition download_logo :: "world \<Rightarrow> json \<Rightarrow> string \<Rightarrow> files \<Rightarrow> string \<times> files" where
  "download_logo w url dest fs =
     (case download_logo_try w url dest fs of
        Inl e \<Rightarrow> (placeholder, fs)
      | Inr r \<Rightarrow> r)"

section \<open>Item construction\<close>

text \<open>
  The logo block at the end of \<^verbatim>\<open>build_item\<close> (and of the loop body of the dynamic
  mode): the value stored under \<^verbatim>\<open>"logo"\<close>. \<open>logo_dir\<close> is \<open>None\<close> or the directory.
\<close>

definition resolve_logo :: "world \<Rightarrow> string option \<Rightarrow> json \<Rightarrow> files \<Rightarrow> json \<times> files" where
  "resolve_logo w logo_dir logo_url fs =
     (case (logo_dir, py_truthy logo_url) of
        (Some dest, True) \<Rightarrow>
          (case download_logo w logo_url dest fs of (file_name, fs') \<Rightarrow> (JStr file_name, fs'))
      | _ \<Rightarrow>
          if py_truthy logo_url then (logo_url, fs) else (JStr placeholder, fs))"

text \<open>The \<^verbatim>\<open>github_repos\<close> block: only the first repository is read.\<close>

definition add_repo_url :: "pydict \<Rightarrow> pydict \<Rightarrow> error + pydict" where
  "add_repo_url project item =
     (let r = dict_get project ''github_repos'' JNull;
          repos = (if py_truthy r then r else JList [])
      in if py_truthy repos
         then (case py_getitem0 repos of
                 Inl e \<Rightarrow> Inl e
               | Inr repo0 \<Rightarrow>
                   (case py_get repo0 ''url'' JNull of
                      Inl e \<Rightarrow> Inl e
                    | Inr repo_url \<Rightarrow>
                        Inr (if py_truthy repo_url then dict_set ''repo_url'' repo_url item
                             else item)))
         else Inr item)"

text \<open>\<^verbatim>\<open>build_item\<close>, the function nested in \<^verbatim>\<open>build_landscape_from_static\<close>.\<close>

definition build_item :: "world \<Rightarrow> string option \<Rightarrow> pydict \<Rightarrow> files \<Rightarrow> error + (json \<times> files)" where
  "build_item w logo_dir project fs =
     (let item0 = [(''name'', dict_get project ''name'' JNull),
                   (''description'', dict_get project ''summary'' JNull),
                   (''homepage_url'', dict_get project ''url'' JNull)];
          state = dict_get project ''state'' JNull;
          item1 = (if py_truthy state then dict_set ''project'' state item0 else item0)
      in case add_repo_url project item1 of
           Inl e \<Rightarrow> Inl e
         | Inr item2 \<Rightarrow>
             (case resolve_logo w logo_dir (dict_get project ''logo'' JNull) fs of
                (logo, fs') \<Rightarrow> Inr (JDict (dict_set ''logo'' logo item2), fs')))"

text \<open>
  The dynamic mode repeats the same statements inside its loop (source lines 217 to 246)
  instead of calling \<^verbatim>\<open>build_item\<close>; \<open>dynamic_item\<close> is that copy.
\<close>

definition dynamic_item :: "world \<Rightarrow> string option \<Rightarrow> pydict \<Rightarrow> files \<Rightarrow> error + (json \<times> files)" where
  "dynamic_item w logo_dir proj fs =
     (let item0 = [(''name'', dict_get proj ''name'' JNull),
                   (''description'', dict_get proj ''summary'' JNull),
                   (''homepage_url'', dict_get proj ''url'' JNull)];
          state = dict_get proj ''state'' JNull;
          item1 = (if py_truthy state then dict_set ''project'' state item0 else item0)
      in case add_repo_url proj item1 of
           Inl e \<Rightarrow> Inl e
         | Inr item2 \<Rightarrow>
             (case resolve_logo w logo_dir (dict_get proj ''logo'' JNull) fs of
                (logo, fs') \<Rightarrow> Inr (JDict (dict_set ''logo'' logo item2), fs')))"

section \<open>Dynamic mode\<close>

text \<open>
  The category and subcategory names of a project (source lines 198 to 204). A
  \<^verbatim>\<open>category\<close> that is present and not a string has no \<^verbatim>\<open>split\<close>.
\<close>

definition category_labels :: "pydict \<Rightarrow> error + (string \<times> string)" where
  "category_labels proj =
     (case dict_get proj ''category'' (JStr ''Unknown'') of
        JStr cat_str \<Rightarrow>
          (case map py_strip (py_split_max 1 CHR ''/'' cat_str) of
             [cat_name, subcat_name] \<Rightarrow> Inr (cat_name, subcat_name)
           | cat_name # _ \<Rightarrow> Inr (cat_name, ''Misc'')
           | [] \<Rightarrow> Inl IndexError)
      | _ \<Rightarrow> Inl AttributeError)"

text \<open>
  The dictionary \<^verbatim>\<open>categories\<close>: category name to its dictionary of subcategories,
  subcategory name to its list of items, both in insertion order. The \<^verbatim>\<open>"name"\<close> entry
  of each is its key and is written out by \<open>category_list\<close>.
\<close>

type_synonym subcat_table = "(string \<times> json list) list"
type_synonym cat_table = "(string \<times> subcat_table) list"

text \<open>\<^verbatim>\<open>v = d.setdefault(k, default)\<close> followed by an update of \<^verbatim>\<open>v\<close> in place.\<close>

fun setdefault_update :: "'k \<Rightarrow> 'v \<Rightarrow> ('v \<Rightarrow> 'v) \<Rightarrow> ('k \<times> 'v) list \<Rightarrow> ('k \<times> 'v) list" where
  "setdefault_update k dflt f [] = [(k, f dflt)]"
| "setdefault_update k dflt f ((k', v) # d) =
     (if k' = k then (k', f v) # d else (k', v) # setdefault_update k dflt f d)"

definition append_item :: "string \<Rightarrow> string \<Rightarrow> json \<Rightarrow> cat_table \<Rightarrow> cat_table" where
  "append_item cat_name subcat_name item categories =
     setdefault_update cat_name []
       (setdefault_update subcat_name [] (\<lambda>items. items @ [item])) categories"

fun dynamic_loop ::
  "world \<Rightarrow> string option \<Rightarrow> pydict list \<Rightarrow> cat_table \<Rightarrow> files \<Rightarrow> error + (cat_table \<times> files)" where
  "dynamic_loop w logo_dir [] categories fs = Inr (categories, fs)"
| "dynamic_loop w logo_dir (proj # rest) categories fs =
     (case category_labels proj of
        Inl e \<Rightarrow> Inl e
      | Inr (cat_name, subcat_name) \<Rightarrow>
          (case dynamic_item w logo_dir proj fs of
             Inl e \<Rightarrow> Inl e
           | Inr (item, fs') \<Rightarrow>
               dynamic_loop w logo_dir rest
                 (append_item cat_name subcat_name item categories) fs'))"

definition subcat_entry :: "string \<times> json list \<Rightarrow> json" where
  "subcat_entry sub = JDict [(''name'', JStr (fst sub)), (''items'', JList (snd sub))]"

definition category_entry :: "string \<times> subcat_table \<Rightarrow> json" where
  "category_entry cat =
     JDict [(''name'', JStr (fst cat)), (''subcategories'', JList (map subcat_entry (snd cat)))]"

definition category_list :: "cat_table \<Rightarrow> json list" where
  "category_list categories = map category_entry categories"

text \<open>\<^verbatim>\<open>logo_dir.mkdir(parents=True, exist_ok=True)\<close> when a directory is given.\<close>

definition ensure_logo_dir :: "world \<Rightarrow> string option \<Rightarrow> error + unit" where
  "ensure_logo_dir w logo_dir =
     (case logo_dir of
        None \<Rightarrow> Inr ()
      | Some d \<Rightarrow> if mkdir_ok w d then Inr () else Inl OSError)"

definition build_landscape_from_dynamic ::
  "world \<Rightarrow> string option \<Rightarrow> pydict list \<Rightarrow> files \<Rightarrow> error + (json \<times> files)" where
  "build_landscape_from_dynamic w logo_dir projects fs =
     (case ensure_logo_dir w logo_dir of
        Inl e \<Rightarrow> Inl e
      | Inr _ \<Rightarrow>
          (case dynamic_loop w logo_dir projects [] fs of
             Inl e \<Rightarrow> Inl e
           | Inr (categories, fs') \<Rightarrow>
               Inr (JDict [(''categories'', JList (category_list categories))], fs')))"

section \<open>Static mode\<close>

text \<open>
  \<^verbatim>\<open>{p.get("name"): p for p in projects}\<close>: a later project of the same name replaces
  the value and keeps the place of the first.
\<close>

fun projects_by_name_loop ::
  "pydict list \<Rightarrow> (json \<times> pydict) list \<Rightarrow> error + (json \<times> pydict) list" where
  "projects_by_name_loop [] acc = Inr acc"
| "projects_by_name_loop (p # ps) acc =
     (case py_key (dict_get p ''name'' JNull) of
        Inl e \<Rightarrow> Inl e
      | Inr k \<Rightarrow> projects_by_name_loop ps (dict_set k p acc))"

text \<open>The loop over the names of one subcategory of the plan.\<close>

fun static_items_loop ::
  "world \<Rightarrow> string option \<Rightarrow> (json \<times> pydict) list \<Rightarrow> json list \<Rightarrow>
   json list \<Rightarrow> json set \<Rightarrow> files \<Rightarrow> error + (json list \<times> json set \<times> files)" where
  "static_items_loop w logo_dir projects_by_name [] items assigned fs =
     Inr (items, assigned, fs)"
| "static_items_loop w logo_dir projects_by_name (proj_name # rest) items assigned fs =
     (case py_key proj_name of
        Inl e \<Rightarrow> Inl e
      | Inr k \<Rightarrow>
          (case map_of projects_by_name k of
             None \<Rightarrow> static_items_loop w logo_dir projects_by_name rest items assigned fs
           | Some proj_data \<Rightarrow>
               if proj_data \<noteq> []
               then (case build_item w logo_dir proj_data fs of
                       Inl e \<Rightarrow> Inl e
                     | Inr (item, fs') \<Rightarrow>
                         static_items_loop w logo_dir projects_by_name rest
                           (items @ [item]) (insert k assigned) fs')
               else static_items_loop w logo_dir projects_by_name rest items assigned fs))"

text \<open>The loop over the subcategories of one category of the plan.\<close>

fun static_subs_loop ::
  "world \<Rightarrow> string option \<Rightarrow> (json \<times> pydict) list \<Rightarrow> json list \<Rightarrow>
   json list \<Rightarrow> json set \<Rightarrow> files \<Rightarrow> error + (json list \<times> json set \<times> files)" where
  "static_subs_loop w logo_dir projects_by_name [] new_subs assigned fs =
     Inr (new_subs, assigned, fs)"
| "static_subs_loop w logo_dir projects_by_name (sub # rest) new_subs assigned fs =
     (case py_get sub ''name'' (JStr []) of
        Inl e \<Rightarrow> Inl e
      | Inr sub_name \<Rightarrow>
          (case py_get sub ''items'' (JList []) of
             Inl e \<Rightarrow> Inl e
           | Inr names_value \<Rightarrow>
               (case py_iter names_value of
                  Inl e \<Rightarrow> Inl e
                | Inr names \<Rightarrow>
                    (case static_items_loop w logo_dir projects_by_name names [] assigned fs of
                       Inl e \<Rightarrow> Inl e
                     | Inr (items, assigned', fs') \<Rightarrow>
                         static_subs_loop w logo_dir projects_by_name rest
                           (new_subs @ [JDict [(''name'', sub_name), (''items'', JList items)]])
                           assigned' fs'))))"

text \<open>The loop over the categories of the plan.\<close>

fun static_cats_loop ::
  "world \<Rightarrow> string option \<Rightarrow> (json \<times> pydict) list \<Rightarrow> pydict list \<Rightarrow>
   json list \<Rightarrow> json set \<Rightarrow> files \<Rightarrow> error + (json list \<times> json set \<times> files)" where
  "static_cats_loop w logo_dir projects_by_name [] output_categories assigned fs =
     Inr (output_categories, assigned, fs)"
| "static_cats_loop w logo_dir projects_by_name (cat # rest) output_categories assigned fs =
     (case py_iter (dict_get cat ''subcategories'' (JList [])) of
        Inl e \<Rightarrow> Inl e
      | Inr subs \<Rightarrow>
          (case static_subs_loop w logo_dir projects_by_name subs [] assigned fs of
             Inl e \<Rightarrow> Inl e
           | Inr (new_subs, assigned', fs') \<Rightarrow>
               static_cats_loop w logo_dir projects_by_name rest
                 (output_categories @
                    [JDict [(''name'', dict_get cat ''name'' (JStr [])),
                            (''subcategories'', JList new_subs)]])
                 assigned' fs'))"

text \<open>The loop over \<^verbatim>\<open>projects_by_name.items()\<close> that collects what was never assigned.\<close>

fun unassigned_loop ::
  "world \<Rightarrow> string option \<Rightarrow> (json \<times> pydict) list \<Rightarrow> json set \<Rightarrow>
   json list \<Rightarrow> files \<Rightarrow> error + (json list \<times> files)" where
  "unassigned_loop w logo_dir [] assigned unassigned_items fs = Inr (unassigned_items, fs)"
| "unassigned_loop w logo_dir ((proj_name, proj_data) # rest) assigned unassigned_items fs =
     (if proj_name \<notin> assigned
      then (case build_item w logo_dir proj_data fs of
              Inl e \<Rightarrow> Inl e
            | Inr (item, fs') \<Rightarrow>
                unassigned_loop w logo_dir rest assigned (unassigned_items @ [item]) fs')
      else unassigned_loop w logo_dir rest assigned unassigned_items fs)"

definition misc_category :: "json list \<Rightarrow> json" where
  "misc_category unassigned_items =
     JDict [(''name'', JStr ''Unmapped''),
            (''subcategories'',
             JList [JDict [(''name'', JStr ''Misc''), (''items'', JList unassigned_items)]])]"

definition build_landscape_from_static ::
  "world \<Rightarrow> string option \<Rightarrow> pydict list \<Rightarrow> pydict list \<Rightarrow> files \<Rightarrow> error + (json \<times> files)" where
  "build_landscape_from_static w logo_dir projects static_categories fs =
     (case projects_by_name_loop projects [] of
        Inl e \<Rightarrow> Inl e
      | Inr projects_by_name \<Rightarrow>
          (case ensure_logo_dir w logo_dir of
             Inl e \<Rightarrow> Inl e
           | Inr _ \<Rightarrow>
               (case static_cats_loop w logo_dir projects_by_name static_categories [] {} fs of
                  Inl e \<Rightarrow> Inl e
                | Inr (output_categories, assigned, fs1) \<Rightarrow>
                    (case unassigned_loop w logo_dir projects_by_name assigned [] fs1 of
                       Inl e \<Rightarrow> Inl e
                     | Inr (unassigned_items, fs2) \<Rightarrow>
                         Inr (JDict [(''categories'',
                                JList (if unassigned_items \<noteq> []
                                       then output_categories @ [misc_category unassigned_items]
                                       else output_categories))],
                              fs2)))))"

section \<open>Notions used in the statements\<close>

text \<open>
  The file name \<^verbatim>\<open>url.split("/")[-1].split("?")[0]\<close> of line 75, and the name the
  specification describes: the last path segment of the URL once the query string
  (everything from the first \<^verbatim>\<open>?\<close>) is removed.
\<close>

definition logo_file_name :: "string \<Rightarrow> string" where
  "logo_file_name u = hd (py_split CHR ''?'' (last (py_split CHR ''/'' u)))"

definition spec_logo_file_name :: "string \<Rightarrow> string" where
  "spec_logo_file_name u = last (py_split CHR ''/'' (hd (py_split CHR ''?'' u)))"

text \<open>Two worlds for the examples: every request and write succeeds, or every request fails.\<close>

definition online :: world where
  "online = \<lparr>http_get = (\<lambda>u. Some ''PNG''), write_ok = (\<lambda>d f. True), mkdir_ok = (\<lambda>d. True)\<rparr>"

definition offline :: world where
  "offline = \<lparr>http_get = (\<lambda>u. None), write_ok = (\<lambda>d f. True), mkdir_ok = (\<lambda>d. True)\<rparr>"

text \<open>
  The item \<^verbatim>\<open>build_item\<close> constructs for a project, without the files it writes. The
  item does not depend on the files written before (lemma \<open>build_item_item_of\<close>).
\<close>

definition item_of :: "world \<Rightarrow> string option \<Rightarrow> pydict \<Rightarrow> error + json" where
  "item_of w logo_dir p =
     (case build_item w logo_dir p Map.empty of Inl e \<Rightarrow> Inl e | Inr (item, fs') \<Rightarrow> Inr item)"

text \<open>All results of a list of computations, or the first error.\<close>

fun collect :: "('e + 'a) list \<Rightarrow> 'e + 'a list" where
  "collect [] = Inr []"
| "collect (x # xs) =
     (case x of
        Inl e \<Rightarrow> Inl e
      | Inr v \<Rightarrow> (case collect xs of Inl e \<Rightarrow> Inl e | Inr vs \<Rightarrow> Inr (v # vs)))"

text \<open>The distinct elements of a list in the order of their first occurrence.\<close>

fun first_seen :: "'a list \<Rightarrow> 'a list" where
  "first_seen [] = []"
| "first_seen (x # xs) = x # filter (\<lambda>y. y \<noteq> x) (first_seen xs)"

text \<open>
  Grouping a list of keyed values: one group for each key, the groups in the order in
  which their keys first occur, the values of a group in the order of the list.
\<close>

definition group_by_first_seen :: "('k \<times> 'v) list \<Rightarrow> ('k \<times> 'v list) list" where
  "group_by_first_seen xs =
     map (\<lambda>k. (k, map snd (filter (\<lambda>x. fst x = k) xs))) (first_seen (map fst xs))"

text \<open>
  The document of the dynamic mode as the specification describes it, for the projects'
  pairs of names and their items in load order: categories by first occurrence, inside a
  category its subcategories by first occurrence, inside a subcategory the items in load
  order.
\<close>

definition dynamic_layout :: "((string \<times> string) \<times> json) list \<Rightarrow> json" where
  "dynamic_layout named_items =
     JDict [(''categories'', JList
       (map (\<lambda>cat. JDict [(''name'', JStr (fst cat)),
                          (''subcategories'', JList
                             (map (\<lambda>sub. JDict [(''name'', JStr (fst sub)),
                                                (''items'', JList (snd sub))])
                                  (group_by_first_seen (snd cat))))])
            (group_by_first_seen
               (map (\<lambda>ni. (fst (fst ni), (snd (fst ni), snd ni))) named_items))))]"

text \<open>Reading a document: its categories, their names and subcategories, the items.\<close>

definition doc_categories :: "json \<Rightarrow> json list" where
  "doc_categories doc =
     (case doc of
        JDict d \<Rightarrow> (case map_of d ''categories'' of Some (JList cs) \<Rightarrow> cs | _ \<Rightarrow> [])
      | _ \<Rightarrow> [])"

definition entry_name :: "json \<Rightarrow> json" where
  "entry_name entry = (case entry of JDict d \<Rightarrow> dict_get d ''name'' JNull | _ \<Rightarrow> JNull)"

definition category_subcategories :: "json \<Rightarrow> json list" where
  "category_subcategories cat =
     (case cat of
        JDict d \<Rightarrow> (case map_of d ''subcategories'' of Some (JList ss) \<Rightarrow> ss | _ \<Rightarrow> [])
      | _ \<Rightarrow> [])"

definition subcategory_items :: "json \<Rightarrow> json list" where
  "subcategory_items sub =
     (case sub of
        JDict d \<Rightarrow> (case map_of d ''items'' of Some (JList its) \<Rightarrow> its | _ \<Rightarrow> [])
      | _ \<Rightarrow> [])"

definition doc_items :: "json \<Rightarrow> json list" where
  "doc_items doc =
     concat (map subcategory_items (concat (map category_subcategories (doc_categories doc))))"

text \<open>The dictionary \<^verbatim>\<open>categories\<close> that corresponds to \<open>dynamic_layout\<close>.\<close>

definition grouped_table :: "((string \<times> string) \<times> json) list \<Rightarrow> cat_table" where
  "grouped_table named_items =
     map (\<lambda>cat. (fst cat, group_by_first_seen (snd cat)))
       (group_by_first_seen (map (\<lambda>ni. (fst (fst ni), (snd (fst ni), snd ni))) named_items))"

section \<open>The static mode as the specification describes it\<close>

text \<open>The key under which a project is stored in \<^verbatim>\<open>projects_by_name\<close>.\<close>

definition name_key :: "pydict \<Rightarrow> error + json" where
  "name_key p = py_key (dict_get p ''name'' JNull)"

text \<open>
  The plan as the loops read it: for every category its name and subcategories, for
  every subcategory its name and the keys of the project names it lists. A missing name
  is the empty string, a missing list is empty.
\<close>

type_synonym plan_view = "(json \<times> (json \<times> json list) list) list"

definition read_sub :: "json \<Rightarrow> error + (json \<times> json list)" where
  "read_sub sub =
     (case py_get sub ''name'' (JStr []) of
        Inl e \<Rightarrow> Inl e
      | Inr sub_name \<Rightarrow>
          (case py_get sub ''items'' (JList []) of
             Inl e \<Rightarrow> Inl e
           | Inr names_value \<Rightarrow>
               (case py_iter names_value of
                  Inl e \<Rightarrow> Inl e
                | Inr names \<Rightarrow>
                    (case collect (map py_key names) of
                       Inl e \<Rightarrow> Inl e
                     | Inr ks \<Rightarrow> Inr (sub_name, ks)))))"

definition read_cat :: "pydict \<Rightarrow> error + (json \<times> (json \<times> json list) list)" where
  "read_cat cat =
     (case py_iter (dict_get cat ''subcategories'' (JList [])) of
        Inl e \<Rightarrow> Inl e
      | Inr subs \<Rightarrow>
          (case collect (map read_sub subs) of
             Inl e \<Rightarrow> Inl e
           | Inr svs \<Rightarrow> Inr (dict_get cat ''name'' (JStr []), svs)))"

definition read_plan :: "pydict list \<Rightarrow> error + plan_view" where
  "read_plan static_categories = collect (map read_cat static_categories)"

definition plan_refs :: "plan_view \<Rightarrow> json list" where
  "plan_refs pv = concat (map snd (concat (map snd pv)))"

text \<open>
  The referenced names that the lookup finds, with the project found, in the order of the
  references. An empty project dictionary counts as not found (\<^verbatim>\<open>if proj_data:\<close>).
\<close>

definition found :: "(json \<times> pydict) list \<Rightarrow> json list \<Rightarrow> (json \<times> pydict) list" where
  "found lookup ks =
     concat (map (\<lambda>k. case map_of lookup k of
                         None \<Rightarrow> []
                       | Some p \<Rightarrow> if p \<noteq> [] then [(k, p)] else []) ks)"

definition the_item :: "world \<Rightarrow> string option \<Rightarrow> pydict \<Rightarrow> json" where
  "the_item w logo_dir p = (case item_of w logo_dir p of Inl e \<Rightarrow> JNull | Inr item \<Rightarrow> item)"

text \<open>
  The document of the static mode: the categories and subcategories of the plan in plan
  order, each subcategory with the items of the names it lists that were found, in list
  order; then, if some entry of the lookup was never assigned, the category
  \<^verbatim>\<open>Unmapped\<close> with the subcategory \<^verbatim>\<open>Misc\<close> holding those entries in lookup order.
\<close>

definition leftover :: "(json \<times> pydict) list \<Rightarrow> plan_view \<Rightarrow> (json \<times> pydict) list" where
  "leftover lookup pv =
     filter (\<lambda>kp. fst kp \<notin> fst ` set (found lookup (plan_refs pv))) lookup"

definition layout_sub :: "(pydict \<Rightarrow> json) \<Rightarrow> (json \<times> pydict) list \<Rightarrow> json \<times> json list \<Rightarrow> json" where
  "layout_sub itemf lookup sub =
     JDict [(''name'', fst sub),
            (''items'', JList (map (\<lambda>kp. itemf (snd kp)) (found lookup (snd sub))))]"

definition layout_cat ::
  "(pydict \<Rightarrow> json) \<Rightarrow> (json \<times> pydict) list \<Rightarrow> json \<times> (json \<times> json list) list \<Rightarrow> json" where
  "layout_cat itemf lookup cat =
     JDict [(''name'', fst cat),
            (''subcategories'', JList (map (layout_sub itemf lookup) (snd cat)))]"

definition static_layout :: "(pydict \<Rightarrow> json) \<Rightarrow> (json \<times> pydict) list \<Rightarrow> plan_view \<Rightarrow> json" where
  "static_layout itemf lookup pv =
     JDict [(''categories'', JList
       (map (layout_cat itemf lookup) pv
        @ (if leftover lookup pv = [] then []
           else [JDict [(''name'', JStr ''Unmapped''),
                        (''subcategories'', JList
                           [JDict [(''name'', JStr ''Misc''),
                                   (''items'', JList
                                      (map (\<lambda>kp. itemf (snd kp)) (leftover lookup pv)))]])]])))]"

text \<open>
  Every loaded project appears in the document exactly once: the items of the document
  are, up to their order, the items of the projects.
\<close>

definition each_project_once :: "world \<Rightarrow> string option \<Rightarrow> pydict list \<Rightarrow> json \<Rightarrow> bool" where
  "each_project_once w logo_dir ps doc \<longleftrightarrow>
     mset (map Inr (doc_items doc)) = mset (map (item_of w logo_dir) ps)"

section \<open>Example inputs\<close>

text \<open>
  Three projects and a plan that lists C and A (in this order) and an unknown name Z, and
  declares a category without subcategories; the document the static mode builds.
\<close>

definition sample_projects :: "pydict list" where
  "sample_projects =
     [[(''name'', JStr ''A''), (''summary'', JStr ''one'')],
      [(''name'', JStr ''B'')],
      [(''name'', JStr ''C'')]]"

definition sample_plan :: "pydict list" where
  "sample_plan =
     [[(''name'', JStr ''Core''),
       (''subcategories'', JList
          [JDict [(''name'', JStr ''Runtime''), (''items'', JList [JStr ''C'', JStr ''A''])],
           JDict [(''name'', JStr ''Empty''), (''items'', JList [JStr ''Z''])]])],
      [(''name'', JStr ''Extra'')]]"

definition sample_document :: json where
  "sample_document =
     JDict [(''categories'', JList
       [JDict [(''name'', JStr ''Core''),
               (''subcategories'', JList
                  [JDict [(''name'', JStr ''Runtime''),
                          (''items'', JList
                             [JDict [(''name'', JStr ''C''), (''description'', JNull),
                                     (''homepage_url'', JNull),
                                     (''logo'', JStr ''placeholder.svg'')],
                              JDict [(''name'', JStr ''A''), (''description'', JStr ''one''),
                                     (''homepage_url'', JNull),
                                     (''logo'', JStr ''placeholder.svg'')]])],
                   JDict [(''name'', JStr ''Empty''), (''items'', JList [])]])],
        JDict [(''name'', JStr ''Extra''), (''subcategories'', JList [])],
        JDict [(''name'', JStr ''Unmapped''),
               (''subcategories'', JList
                  [JDict [(''name'', JStr ''Misc''),
                          (''items'', JList
                             [JDict [(''name'', JStr ''B''), (''description'', JNull),
                                     (''homepage_url'', JNull),
                                     (''logo'', JStr ''placeholder.svg'')]])]])]])]"

text \<open>Two projects named A around a project B, and a plan that lists A once.\<close>

definition duplicate_projects :: "pydict list" where
  "duplicate_projects =
     [[(''name'', JStr ''A''), (''summary'', JStr ''one'')],
      [(''name'', JStr ''B'')],
      [(''name'', JStr ''A''), (''summary'', JStr ''two'')]]"

definition duplicate_plan :: "pydict list" where
  "duplicate_plan =
     [[(''name'', JStr ''Core''),
       (''subcategories'', JList
          [JDict [(''name'', JStr ''Runtime''), (''items'', JList [JStr ''A''])]])]]"

definition duplicate_document :: json where
  "duplicate_document =
     JDict [(''categories'', JList
       [JDict [(''name'', JStr ''Core''),
               (''subcategories'', JList
                  [JDict [(''name'', JStr ''Runtime''),
                          (''items'', JList
                             [JDict [(''name'', JStr ''A''), (''description'', JStr ''two''),
                                     (''homepage_url'', JNull),
                                     (''logo'', JStr ''placeholder.svg'')]])]])],
        JDict [(''name'', JStr ''Unmapped''),
               (''subcategories'', JList
                  [JDict [(''name'', JStr ''Misc''),
                          (''items'', JList
                             [JDict [(''name'', JStr ''B''), (''description'', JNull),
                                     (''homepage_url'', JNull),
                                     (''logo'', JStr ''placeholder.svg'')]])]])]])]"

text \<open>A plan none of whose names is loaded, and a plan that lists A in two subcategories.\<close>

definition unmatched_plan :: "pydict list" where
  "unmatched_plan =
     [[(''name'', JStr ''Core''),
       (''subcategories'', JList
          [JDict [(''name'', JStr ''Runtime''), (''items'', JList [JStr ''Y'', JStr ''Z''])]])]]"

definition unmatched_document :: json where
  "unmatched_document =
     JDict [(''categories'', JList
       [JDict [(''name'', JStr ''Core''),
               (''subcategories'', JList
                  [JDict [(''name'', JStr ''Runtime''), (''items'', JList [])]])],
        JDict [(''name'', JStr ''Unmapped''),
               (''subcategories'', JList
                  [JDict [(''name'', JStr ''Misc''),
                          (''items'', JList
                             [JDict [(''name'', JStr ''A''), (''description'', JNull),
                                     (''homepage_url'', JNull),
                                     (''logo'', JStr ''placeholder.svg'')],
                              JDict [(''name'', JStr ''B''), (''description'', JNull),
                                     (''homepage_url'', JNull),
                                     (''logo'', JStr ''placeholder.svg'')]])]])]])]"

definition twice_plan :: "pydict list" where
  "twice_plan =
     [[(''name'', JStr ''Core''),
       (''subcategories'', JList
          [JDict [(''name'', JStr ''Runtime''), (''items'', JList [JStr ''A''])],
           JDict [(''name'', JStr ''Other''), (''items'', JList [JStr ''A''])]])]]"

definition twice_document :: json where
  "twice_document =
     JDict [(''categories'', JList
       [JDict [(''name'', JStr ''Core''),
               (''subcategories'', JList
                  [JDict [(''name'', JStr ''Runtime''),
                          (''items'', JList
                             [JDict [(''name'', JStr ''A''), (''description'', JNull),
                                     (''homepage_url'', JNull),
                                     (''logo'', JStr ''placeholder.svg'')]])],
                   JDict [(''name'', JStr ''Other''),
                          (''items'', JList
                             [JDict [(''name'', JStr ''A''), (''description'', JNull),
                                     (''homepage_url'', JNull),
                                     (''logo'', JStr ''placeholder.svg'')]])]])]])]"

definition shadowed_document :: json where
  "shadowed_document =
     JDict [(''categories'', JList
       [JDict [(''name'', JStr ''Unmapped''),
               (''subcategories'', JList
                  [JDict [(''name'', JStr ''Misc''),
                          (''items'', JList
                             [JDict [(''name'', JStr ''A''), (''description'', JStr ''two''),
                                     (''homepage_url'', JNull),
                                     (''logo'', JStr ''placeholder.svg'')]])]])]])]"




section \<open>Splitting and stripping\<close>

lemma py_split_not_Nil: "py_split c s \<noteq> []"
  by (induction s) (auto split: list.splits)

lemma py_split_max_not_Nil: "py_split_max n c s \<noteq> []"
  by (induction n c s rule: py_split_max.induct) (auto split: list.splits)

lemma py_split_max_no_sep: "c \<notin> set s \<Longrightarrow> py_split_max n c s = [s]"
  by (induction n c s rule: py_split_max.induct) auto

lemma py_split_max_first:
  "c \<notin> set a \<Longrightarrow> py_split_max (Suc n) c (a @ c # b) = a # py_split_max n c b"
  by (induction a) auto

lemma py_split_no_sep: "c \<notin> set s \<Longrightarrow> py_split c s = [s]"
  by (induction s) auto

lemma py_split_first: "c \<notin> set a \<Longrightarrow> py_split c (a @ c # b) = a # py_split c b"
  by (induction a) auto

lemma hd_py_split: "c \<notin> set a \<Longrightarrow> hd (py_split c (a @ c # b)) = a"
  by (simp add: py_split_first)

lemma py_split_append_no_sep:
  "c \<notin> set b \<Longrightarrow>
   py_split c (a @ b) = butlast (py_split c a) @ [last (py_split c a) @ b]"
proof (induction a)
  case Nil
  then show ?case by (simp add: py_split_no_sep)
next
  case (Cons x a)
  obtain w ws where w: "py_split c a = w # ws"
    using py_split_not_Nil [of c a] by (cases "py_split c a") auto
  show ?case
  proof (cases "x = c")
    case True
    with Cons w show ?thesis by simp
  next
    case False
    with Cons w show ?thesis by (cases ws) auto
  qed
qed

lemma last_py_split_append:
  "c \<notin> set b \<Longrightarrow> last (py_split c (a @ b)) = last (py_split c a) @ b"
  by (simp add: py_split_append_no_sep)

lemma set_last_py_split: "set (last (py_split c s)) \<subseteq> set s"
proof (induction s)
  case Nil
  then show ?case by simp
next
  case (Cons x s)
  then show ?case
    using py_split_not_Nil [of c s]
    by (auto split: list.splits)
qed

section \<open>Items\<close>

lemma dynamic_item_eq_build_item: "dynamic_item w logo_dir p fs = build_item w logo_dir p fs"
  by (simp add: dynamic_item_def build_item_def)

text \<open>
  Claim C1. The claim says that a project without a homepage URL gives an item without a
  \<^verbatim>\<open>homepage_url\<close> key. The code writes the three keys \<^verbatim>\<open>name\<close>, \<^verbatim>\<open>description\<close> and
  \<^verbatim>\<open>homepage_url\<close> unconditionally, with \<^verbatim>\<open>None\<close> for a missing source field: for the
  project \<^verbatim>\<open>{"name": "A"}\<close> both modes build an item whose \<^verbatim>\<open>description\<close> and
  \<^verbatim>\<open>homepage_url\<close> are null.
\<close>

theorem build_item_writes_null_homepage_url:
  "build_item w None [(''name'', JStr ''A'')] fs =
     Inr (JDict [(''name'', JStr ''A''), (''description'', JNull), (''homepage_url'', JNull),
                 (''logo'', JStr ''placeholder.svg'')], fs)
   \<and> dynamic_item w None [(''name'', JStr ''A'')] fs =
     Inr (JDict [(''name'', JStr ''A''), (''description'', JNull), (''homepage_url'', JNull),
                 (''logo'', JStr ''placeholder.svg'')], fs)"
  by (simp add: dynamic_item_def build_item_def add_repo_url_def resolve_logo_def dict_get_def
      placeholder_def)

section \<open>Logo resolution\<close>

lemma download_logo_try_name:
  "download_logo_try w url dest fs = Inr (r, fs') \<Longrightarrow> \<exists>u. url = JStr u \<and> r = logo_file_name u"
  using py_split_not_Nil
  by (auto simp: download_logo_try_def logo_file_name_def py_last_def py_first_def
      split: json.splits sum.splits option.splits if_splits list.splits)

lemma download_logo_cases:
  "fst (download_logo w url dest fs) = placeholder \<or>
   (\<exists>u. url = JStr u \<and> fst (download_logo w url dest fs) = logo_file_name u)"
  using download_logo_try_name [of w url dest fs]
  by (cases "download_logo_try w url dest fs") (auto simp: download_logo_def)

lemma resolve_logo_cases:
  "fst (resolve_logo w logo_dir v fs) = v \<or>
   fst (resolve_logo w logo_dir v fs) = JStr placeholder \<or>
   (\<exists>u. v = JStr u \<and> fst (resolve_logo w logo_dir v fs) = JStr (logo_file_name u))"
proof (cases logo_dir)
  case None
  then show ?thesis by (simp add: resolve_logo_def)
next
  case (Some dest)
  obtain r fs' where r: "download_logo w v dest fs = (r, fs')"
    by (cases "download_logo w v dest fs")
  with Some download_logo_cases [of w v dest fs] show ?thesis
    by (auto simp: resolve_logo_def)
qed

lemma build_item_error_iff:
  "build_item w logo_dir p fs = Inl e \<longleftrightarrow>
   add_repo_url p
     (if py_truthy (dict_get p ''state'' JNull)
      then dict_set ''project'' (dict_get p ''state'' JNull)
             [(''name'', dict_get p ''name'' JNull), (''description'', dict_get p ''summary'' JNull),
              (''homepage_url'', dict_get p ''url'' JNull)]
      else [(''name'', dict_get p ''name'' JNull), (''description'', dict_get p ''summary'' JNull),
            (''homepage_url'', dict_get p ''url'' JNull)]) = Inl e"
  by (simp add: build_item_def Let_def split: sum.splits prod.splits)

text \<open>
  Claim C6. Logo resolution never raises: \<^verbatim>\<open>download_logo\<close> returns the placeholder or,
  for a string URL, the file name derived from it, and whenever its \<^verbatim>\<open>try\<close> block fails
  it returns the placeholder and writes nothing; the value stored under \<^verbatim>\<open>"logo"\<close> is
  the original value, the derived file name or the placeholder, and it is a string for a
  string URL and the placeholder for a missing one; an error of \<^verbatim>\<open>build_item\<close> never
  depends on the world, the logo directory or the files, so a broken logo aborts nothing.
\<close>

theorem logo_resolution_total:
  "(fst (download_logo w url dest fs) = placeholder \<or>
      (\<exists>u. url = JStr u \<and> fst (download_logo w url dest fs) = logo_file_name u))
   \<and> (download_logo_try w url dest fs = Inl e \<longrightarrow>
        download_logo w url dest fs = (placeholder, fs))
   \<and> (fst (resolve_logo w logo_dir v fs) = v \<or>
      fst (resolve_logo w logo_dir v fs) = JStr placeholder \<or>
      (\<exists>u. v = JStr u \<and> fst (resolve_logo w logo_dir v fs) = JStr (logo_file_name u)))
   \<and> (\<exists>s. fst (resolve_logo w logo_dir (JStr u) fs) = JStr s)
   \<and> fst (resolve_logo w logo_dir JNull fs) = JStr placeholder
   \<and> (build_item w logo_dir p fs = Inl e' \<longrightarrow> build_item w' logo_dir' p fs' = Inl e')"
proof -
  have a: "\<exists>s. fst (resolve_logo w logo_dir (JStr u) fs) = JStr s"
    using resolve_logo_cases [of w logo_dir "JStr u" fs] by auto
  have b: "fst (resolve_logo w logo_dir JNull fs) = JStr placeholder"
    by (simp add: resolve_logo_def split: option.splits)
  have c: "download_logo_try w url dest fs = Inl e \<longrightarrow>
      download_logo w url dest fs = (placeholder, fs)"
    by (simp add: download_logo_def)
  have d: "build_item w logo_dir p fs = Inl e' \<longrightarrow> build_item w' logo_dir' p fs' = Inl e'"
    by (simp only: build_item_error_iff) simp
  show ?thesis
    using download_logo_cases [of w url dest fs] resolve_logo_cases [of w logo_dir v fs] a b c d
    by blast
qed

theorem logo_resolution_total_witness:
  "download_logo offline (JStr ''https://example.org/logos/a.png'') ''logos'' Map.empty =
     (''placeholder.svg'', Map.empty)
   \<and> build_item online (Some ''logos'') [(''name'', JStr ''A''), (''github_repos'', JInt 5)] Map.empty
       = Inl TypeError
   \<and> build_item offline (Some ''logos'')
       [(''name'', JStr ''A''), (''logo'', JStr ''https://example.org/logos/a.png'')] Map.empty
       = Inr (JDict [(''name'', JStr ''A''), (''description'', JNull), (''homepage_url'', JNull),
                     (''logo'', JStr ''placeholder.svg'')], Map.empty)"
proof -
  have b: "build_item offline (Some ''logos'')
       [(''name'', JStr ''A''), (''logo'', JStr ''https://example.org/logos/a.png'')] Map.empty
       = Inr (JDict [(''name'', JStr ''A''), (''description'', JNull), (''homepage_url'', JNull),
                     (''logo'', JStr ''placeholder.svg'')], Map.empty)"
    by (simp add: build_item_def add_repo_url_def resolve_logo_def dict_get_def download_logo_def
        download_logo_try_def offline_def py_last_def py_first_def placeholder_def)
  have t: "download_logo_try offline (JStr ''https://example.org/logos/a.png'') ''logos'' Map.empty
      = Inl RequestException"
    by (simp add: download_logo_try_def offline_def py_last_def py_first_def)
  have i: "build_item offline None [(''name'', JStr ''A''), (''github_repos'', JInt 5)] Map.empty
      = Inl TypeError"
    by (simp add: build_item_def add_repo_url_def dict_get_def)
  from logo_resolution_total
    [of offline "JStr ''https://example.org/logos/a.png''" "''logos''" Map.empty RequestException
      None JNull "[]" "[(''name'', JStr ''A''), (''github_repos'', JInt 5)]" TypeError
      online "Some ''logos''" Map.empty]
  show ?thesis using t i b by (simp add: placeholder_def)
qed

text \<open>
  Claim C7. The claim says that the saved file name is the last path segment of the URL
  with the query string removed, also when the query string contains a slash. The code
  splits at the slashes first and removes the query afterwards: for
  \<^verbatim>\<open>https://example.org/logos/a.png?ref=x/y\<close> the logo is saved as, and the function
  returns, \<^verbatim>\<open>y\<close>, while the last path segment without the query is \<^verbatim>\<open>a.png\<close>.
\<close>

theorem download_logo_query_with_slash:
  "download_logo online (JStr ''https://example.org/logos/a.png?ref=x/y'') ''logos'' Map.empty =
     (''y'', [(''logos'', ''y'') \<mapsto> ''PNG''])
   \<and> spec_logo_file_name ''https://example.org/logos/a.png?ref=x/y'' = ''a.png''"
  by (simp add: download_logo_def download_logo_try_def py_last_def py_first_def online_def
      spec_logo_file_name_def)

text \<open>
  Without a slash in the query string, and without any query string, the name of line 75
  is the last path segment with the query removed.
\<close>

lemma logo_file_name_agrees:
  "CHR ''?'' \<notin> set u \<Longrightarrow> logo_file_name u = spec_logo_file_name u"
  "CHR ''?'' \<notin> set p \<Longrightarrow> CHR ''/'' \<notin> set q \<Longrightarrow>
   logo_file_name (p @ CHR ''?'' # q) = spec_logo_file_name (p @ CHR ''?'' # q)"
proof -
  assume u: "CHR ''?'' \<notin> set u"
  with set_last_py_split [of "CHR ''/''" u] have "CHR ''?'' \<notin> set (last (py_split CHR ''/'' u))"
    by auto
  with u show "logo_file_name u = spec_logo_file_name u"
    by (simp add: logo_file_name_def spec_logo_file_name_def py_split_no_sep)
next
  assume p: "CHR ''?'' \<notin> set p" and q: "CHR ''/'' \<notin> set q"
  from p set_last_py_split [of "CHR ''/''" p] have l: "CHR ''?'' \<notin> set (last (py_split CHR ''/'' p))"
    by auto
  from q have "last (py_split CHR ''/'' (p @ CHR ''?'' # q)) = last (py_split CHR ''/'' p) @ CHR ''?'' # q"
    using last_py_split_append [of "CHR ''/''" "CHR ''?'' # q" p] by simp
  with l p show "logo_file_name (p @ CHR ''?'' # q) = spec_logo_file_name (p @ CHR ''?'' # q)"
    by (simp add: logo_file_name_def spec_logo_file_name_def hd_py_split)
qed

section \<open>Dynamic mode: the names of category and subcategory\<close>

lemma labels_absent:
  "map_of p ''category'' = None \<Longrightarrow> category_labels p = Inr (''Unknown'', ''Misc'')"
  by (simp add: category_labels_def dict_get_def py_strip_def py_isspace_def)

lemma labels_no_sep:
  "map_of p ''category'' = Some (JStr s) \<Longrightarrow> CHR ''/'' \<notin> set s \<Longrightarrow>
   category_labels p = Inr (py_strip s, ''Misc'')"
  by (simp add: category_labels_def dict_get_def py_split_max_no_sep)

lemma labels_sep:
  "map_of p ''category'' = Some (JStr (a @ CHR ''/'' # b)) \<Longrightarrow> CHR ''/'' \<notin> set a \<Longrightarrow>
   category_labels p = Inr (py_strip a, py_strip b)"
  using py_split_max_first [of "CHR ''/''" a 0 b]
  by (simp add: category_labels_def dict_get_def)

lemma labels_null:
  "map_of p ''category'' = Some JNull \<Longrightarrow> category_labels p = Inl AttributeError"
  by (simp add: category_labels_def dict_get_def)

lemma dynamic_loop_labels_error:
  "p \<in> set ps \<Longrightarrow> category_labels p = Inl e \<Longrightarrow> \<exists>e'. dynamic_loop w ld ps cats fs = Inl e'"
  by (induction ps arbitrary: cats fs) (auto split: sum.splits prod.splits)

text \<open>
  Claim C4. In dynamic mode a project without a \<^verbatim>\<open>category\<close> goes to \<^verbatim>\<open>Unknown\<close> /
  \<^verbatim>\<open>Misc\<close>; a category without a slash gives the stripped field as category name and
  \<^verbatim>\<open>Misc\<close> as subcategory name; otherwise the field is cut at its first slash and the two
  parts are stripped. The three projects of the example give the categories \<^verbatim>\<open>Infra\<close>
  (\<^verbatim>\<open>Net\<close> with A, \<^verbatim>\<open>Misc\<close> with B) and \<^verbatim>\<open>Unknown\<close> (\<^verbatim>\<open>Misc\<close> with C).
\<close>

theorem dynamic_labels_split_at_first_slash:
  "(map_of p ''category'' = None \<longrightarrow> category_labels p = Inr (''Unknown'', ''Misc''))
   \<and> (map_of p ''category'' = Some (JStr s) \<and> CHR ''/'' \<notin> set s \<longrightarrow>
        category_labels p = Inr (py_strip s, ''Misc''))
   \<and> (map_of p ''category'' = Some (JStr (a @ CHR ''/'' # b)) \<and> CHR ''/'' \<notin> set a \<longrightarrow>
        category_labels p = Inr (py_strip a, py_strip b))
   \<and> build_landscape_from_dynamic w None
        [[(''name'', JStr ''A''), (''category'', JStr ''Infra/Net'')],
         [(''name'', JStr ''B''), (''category'', JStr ''Infra'')],
         [(''name'', JStr ''C'')]] fs =
      Inr (JDict [(''categories'', JList
             [JDict [(''name'', JStr ''Infra''),
                     (''subcategories'', JList
                        [JDict [(''name'', JStr ''Net''),
                                (''items'', JList
                                   [JDict [(''name'', JStr ''A''), (''description'', JNull),
                                           (''homepage_url'', JNull),
                                           (''logo'', JStr ''placeholder.svg'')]])],
                         JDict [(''name'', JStr ''Misc''),
                                (''items'', JList
                                   [JDict [(''name'', JStr ''B''), (''description'', JNull),
                                           (''homepage_url'', JNull),
                                           (''logo'', JStr ''placeholder.svg'')]])]])],
              JDict [(''name'', JStr ''Unknown''),
                     (''subcategories'', JList
                        [JDict [(''name'', JStr ''Misc''),
                                (''items'', JList
                                   [JDict [(''name'', JStr ''C''), (''description'', JNull),
                                           (''homepage_url'', JNull),
                                           (''logo'', JStr ''placeholder.svg'')]])]])]])], fs)"
proof -
  have ex: "build_landscape_from_dynamic w None
        [[(''name'', JStr ''A''), (''category'', JStr ''Infra/Net'')],
         [(''name'', JStr ''B''), (''category'', JStr ''Infra'')],
         [(''name'', JStr ''C'')]] fs =
      Inr (JDict [(''categories'', JList
             [JDict [(''name'', JStr ''Infra''),
                     (''subcategories'', JList
                        [JDict [(''name'', JStr ''Net''),
                                (''items'', JList
                                   [JDict [(''name'', JStr ''A''), (''description'', JNull),
                                           (''homepage_url'', JNull),
                                           (''logo'', JStr ''placeholder.svg'')]])],
                         JDict [(''name'', JStr ''Misc''),
                                (''items'', JList
                                   [JDict [(''name'', JStr ''B''), (''description'', JNull),
                                           (''homepage_url'', JNull),
                                           (''logo'', JStr ''placeholder.svg'')]])]])],
              JDict [(''name'', JStr ''Unknown''),
                     (''subcategories'', JList
                        [JDict [(''name'', JStr ''Misc''),
                                (''items'', JList
                                   [JDict [(''name'', JStr ''C''), (''description'', JNull),
                                           (''homepage_url'', JNull),
                                           (''logo'', JStr ''placeholder.svg'')]])]])]])], fs)"
    by (simp add: build_landscape_from_dynamic_def ensure_logo_dir_def category_labels_def
        dict_get_def py_strip_def py_isspace_def dynamic_item_def add_repo_url_def
        resolve_logo_def append_item_def category_list_def category_entry_def subcat_entry_def
        placeholder_def)
  show ?thesis
    using labels_absent [of p] labels_no_sep [of p s] labels_sep [of p a b] ex by blast
qed

theorem dynamic_labels_split_at_first_slash_witness:
  "category_labels [(''name'', JStr ''C'')] = Inr (''Unknown'', ''Misc'')
   \<and> category_labels [(''name'', JStr ''B''), (''category'', JStr '' Infra '')] =
       Inr (''Infra'', ''Misc'')
   \<and> category_labels [(''name'', JStr ''A''), (''category'', JStr ''Infra / Net/x'')] =
       Inr (''Infra'', ''Net/x'')"
proof -
  have s1: "py_strip '' Infra '' = ''Infra''" "py_strip ''Infra '' = ''Infra''"
    "py_strip '' Net/x'' = ''Net/x''"
    by (simp_all add: py_strip_def py_isspace_def)
  have 1: "category_labels [(''name'', JStr ''C'')] = Inr (''Unknown'', ''Misc'')"
    using dynamic_labels_split_at_first_slash [of "[(''name'', JStr ''C'')]"] by simp
  have 2: "category_labels [(''name'', JStr ''B''), (''category'', JStr '' Infra '')] =
       Inr (''Infra'', ''Misc'')"
    using dynamic_labels_split_at_first_slash
      [of "[(''name'', JStr ''B''), (''category'', JStr '' Infra '')]" "'' Infra ''"] s1
    by simp
  have 3: "category_labels [(''name'', JStr ''A''), (''category'', JStr ''Infra / Net/x'')] =
       Inr (''Infra'', ''Net/x'')"
    using dynamic_labels_split_at_first_slash
      [of "[(''name'', JStr ''A''), (''category'', JStr ''Infra / Net/x'')]" _ "''Infra ''"
        "'' Net/x''"] s1
    by simp
  from 1 2 3 show ?thesis by simp
qed

text \<open>
  Claim C10. The default \<^verbatim>\<open>"Unknown"\<close> is used only when the \<^verbatim>\<open>category\<close> key is
  missing. When the key is present and null, computing the names raises (\<^verbatim>\<open>None\<close> has
  no \<^verbatim>\<open>split\<close>), and so does the whole dynamic grouping of any project list that
  contains such a project; with the project first and the logo directory in place, the
  error is the AttributeError of the split.
\<close>

theorem dynamic_null_category_raises:
  "(map_of p ''category'' = None \<longrightarrow> category_labels p = Inr (''Unknown'', ''Misc''))
   \<and> (map_of p ''category'' = Some JNull \<longrightarrow>
        category_labels p = Inl AttributeError
        \<and> (p \<in> set ps \<longrightarrow> (\<exists>e. build_landscape_from_dynamic w logo_dir ps fs = Inl e))
        \<and> (ensure_logo_dir w logo_dir = Inr () \<longrightarrow>
             build_landscape_from_dynamic w logo_dir (p # ps) fs = Inl AttributeError))"
proof -
  have "\<exists>e. build_landscape_from_dynamic w logo_dir ps fs = Inl e"
    if "map_of p ''category'' = Some JNull" "p \<in> set ps"
    using dynamic_loop_labels_error [OF that(2) labels_null [OF that(1)], of w logo_dir "[]" fs]
    by (auto simp: build_landscape_from_dynamic_def split: sum.splits)
  moreover have "build_landscape_from_dynamic w logo_dir (p # ps) fs = Inl AttributeError"
    if "map_of p ''category'' = Some JNull" "ensure_logo_dir w logo_dir = Inr ()"
    using that labels_null [OF that(1)] by (simp add: build_landscape_from_dynamic_def)
  ultimately show ?thesis
    using labels_absent [of p] labels_null [of p] by blast
qed

theorem dynamic_null_category_raises_witness:
  "category_labels [(''name'', JStr ''A'')] = Inr (''Unknown'', ''Misc'')
   \<and> category_labels [(''name'', JStr ''N''), (''category'', JNull)] = Inl AttributeError
   \<and> (\<exists>e. build_landscape_from_dynamic online None
            [[(''name'', JStr ''A'')], [(''name'', JStr ''N''), (''category'', JNull)]] Map.empty
          = Inl e)
   \<and> build_landscape_from_dynamic online None
        [[(''name'', JStr ''N''), (''category'', JNull)], [(''name'', JStr ''A'')]] Map.empty
      = Inl AttributeError"
proof -
  have 1: "category_labels [(''name'', JStr ''A'')] = Inr (''Unknown'', ''Misc'')"
    using dynamic_null_category_raises [of "[(''name'', JStr ''A'')]"] by simp
  have 2: "category_labels [(''name'', JStr ''N''), (''category'', JNull)] = Inl AttributeError
     \<and> (\<exists>e. build_landscape_from_dynamic online None
            [[(''name'', JStr ''A'')], [(''name'', JStr ''N''), (''category'', JNull)]] Map.empty
          = Inl e)"
    using dynamic_null_category_raises
      [of "[(''name'', JStr ''N''), (''category'', JNull)]"
        "[[(''name'', JStr ''A'')], [(''name'', JStr ''N''), (''category'', JNull)]]"
        online None Map.empty]
    by simp
  have 3: "build_landscape_from_dynamic online None
        [[(''name'', JStr ''N''), (''category'', JNull)], [(''name'', JStr ''A'')]] Map.empty
      = Inl AttributeError"
    using dynamic_null_category_raises
      [of "[(''name'', JStr ''N''), (''category'', JNull)]" "[[(''name'', JStr ''A'')]]"
        online None Map.empty]
    by (simp add: ensure_logo_dir_def)
  from 1 2 3 show ?thesis by simp
qed

section \<open>The item of a project does not depend on the files\<close>

lemma download_logo_fst_indep:
  "fst (download_logo w url dest fs) = fst (download_logo w url dest fs0)"
  by (auto simp: download_logo_def download_logo_try_def split: json.splits sum.splits option.splits)

lemma resolve_logo_fst_indep:
  "fst (resolve_logo w logo_dir v fs) = fst (resolve_logo w logo_dir v fs0)"
proof (cases logo_dir)
  case None
  then show ?thesis by (simp add: resolve_logo_def)
next
  case (Some dest)
  with download_logo_fst_indep [of w v dest fs fs0] show ?thesis
    by (cases "download_logo w v dest fs"; cases "download_logo w v dest fs0")
      (simp add: resolve_logo_def)
qed

lemma build_item_tail_indep:
  assumes "(case r of Inl e \<Rightarrow> Inl e
            | Inr item2 \<Rightarrow>
                (case resolve_logo w logo_dir v fs of
                   (logo, fs') \<Rightarrow> Inr (JDict (dict_set ''logo'' logo item2), fs'))) = Inr (item, fs1)"
  shows "\<exists>fs2. (case r of Inl e \<Rightarrow> Inl e
            | Inr item2 \<Rightarrow>
                (case resolve_logo w logo_dir v fs0 of
                   (logo, fs') \<Rightarrow> Inr (JDict (dict_set ''logo'' logo item2), fs'))) = Inr (item, fs2)"
  using assms resolve_logo_fst_indep [of w logo_dir v fs fs0]
  by (cases r; cases "resolve_logo w logo_dir v fs"; cases "resolve_logo w logo_dir v fs0") auto

lemma build_item_indep:
  "build_item w logo_dir p fs = Inr (item, fs1) \<Longrightarrow>
   \<exists>fs2. build_item w logo_dir p fs0 = Inr (item, fs2)"
  unfolding build_item_def Let_def by (rule build_item_tail_indep)

lemma build_item_item_of:
  assumes "build_item w logo_dir p fs = Inr (item, fs')"
  shows "item_of w logo_dir p = Inr item"
proof -
  from build_item_indep [OF assms, of Map.empty]
  obtain fs2 where "build_item w logo_dir p Map.empty = Inr (item, fs2)" ..
  then show ?thesis by (simp add: item_of_def)
qed

lemma item_of_build_item:
  assumes "item_of w logo_dir p = Inr item"
  shows "\<exists>fs'. build_item w logo_dir p fs = Inr (item, fs')"
proof -
  from assms obtain fs2 where "build_item w logo_dir p Map.empty = Inr (item, fs2)"
    by (auto simp: item_of_def split: sum.splits)
  then show ?thesis by (rule build_item_indep)
qed

section \<open>First occurrences and grouping\<close>

lemma set_first_seen [simp]: "set (first_seen xs) = set xs"
  by (induction xs) auto

lemma distinct_first_seen [simp]: "distinct (first_seen xs)"
  by (induction xs) auto

lemma first_seen_snoc:
  "first_seen (xs @ [x]) = (if x \<in> set xs then first_seen xs else first_seen xs @ [x])"
  by (induction xs) auto

lemma first_seen_distinct: "distinct xs \<Longrightarrow> first_seen xs = xs"
  by (induction xs) (auto simp: filter_id_conv)

lemma setdefault_update_present:
  "k \<in> set ks \<Longrightarrow> distinct ks \<Longrightarrow>
   setdefault_update k d f (map (\<lambda>k'. (k', h k')) ks) =
   map (\<lambda>k'. (k', if k' = k then f (h k') else h k')) ks"
  by (induction ks) auto

lemma setdefault_update_absent:
  "k \<notin> set ks \<Longrightarrow>
   setdefault_update k d f (map (\<lambda>k'. (k', h k')) ks) = map (\<lambda>k'. (k', h k')) ks @ [(k, f d)]"
  by (induction ks) auto

lemma setdefault_update_group:
  "setdefault_update k [] (\<lambda>vs. vs @ [v]) (group_by_first_seen xs) =
   group_by_first_seen (xs @ [(k, v)])"
proof (cases "k \<in> fst ` set xs")
  case True
  then show ?thesis
    by (simp add: group_by_first_seen_def first_seen_snoc setdefault_update_present)
next
  case False
  then have "filter (\<lambda>x. fst x = k) xs = []"
    by (auto simp: filter_empty_conv)
  with False show ?thesis
    by (auto simp add: group_by_first_seen_def first_seen_snoc setdefault_update_absent)
qed

lemma mset_filter_split_key:
  "k \<notin> set ks \<Longrightarrow>
   mset (map snd (filter (\<lambda>x. fst x = k) xs)) + mset (map snd (filter (\<lambda>x. fst x \<in> set ks) xs)) =
   mset (map snd (filter (\<lambda>x. fst x = k \<or> fst x \<in> set ks) xs))"
  by (induction xs) auto

lemma mset_concat_groups:
  "distinct ks \<Longrightarrow>
   mset (concat (map (\<lambda>k. map snd (filter (\<lambda>x. fst x = k) xs)) ks)) =
   mset (map snd (filter (\<lambda>x. fst x \<in> set ks) xs))"
proof (induction ks)
  case Nil
  then show ?case by simp
next
  case (Cons k ks)
  then show ?case
    using mset_filter_split_key [of k ks xs] by simp
qed

lemma mset_group_by_first_seen:
  "mset (concat (map snd (group_by_first_seen xs))) = mset (map snd xs)"
proof -
  have "filter (\<lambda>x. fst x \<in> fst ` set xs) xs = xs"
    by (simp add: filter_id_conv)
  with mset_concat_groups [of "first_seen (map fst xs)" xs] show ?thesis
    by (simp add: group_by_first_seen_def comp_def)
qed

lemma mset_concat_map_cong:
  "(\<And>x. x \<in> set xs \<Longrightarrow> mset (f x) = mset (g x)) \<Longrightarrow>
   mset (concat (map f xs)) = mset (concat (map g xs))"
  by (induction xs) auto


section \<open>Collecting results\<close>

lemma collect_map_Inr: "collect (map Inr vs) = Inr vs"
  by (induction vs) simp_all

lemma collect_Inr_D: "collect xs = Inr vs \<Longrightarrow> xs = map Inr vs"
  by (induction xs arbitrary: vs) (auto split: sum.splits)

lemma collect_Inr_iff: "collect xs = Inr vs \<longleftrightarrow> xs = map Inr vs"
  using collect_map_Inr collect_Inr_D by metis

lemma collect_length: "collect xs = Inr vs \<Longrightarrow> length vs = length xs"
  by (drule collect_Inr_D) simp

section \<open>Dynamic mode: the document\<close>

lemma setdefault_update_map:
  assumes "\<And>v. f (g v) = g (f' v)" and "f d = g (f' d')"
  shows "setdefault_update k d f (map (\<lambda>e. (fst e, g (snd e))) T) =
         map (\<lambda>e. (fst e, g (snd e))) (setdefault_update k d' f' T)"
  using assms by (induction T) auto

lemma append_item_grouped_table:
  "append_item c s item (grouped_table lis) = grouped_table (lis @ [((c, s), item)])"
proof -
  have "setdefault_update c [] (setdefault_update s [] (\<lambda>items. items @ [item]))
          (map (\<lambda>e. (fst e, group_by_first_seen (snd e))) T) =
        map (\<lambda>e. (fst e, group_by_first_seen (snd e)))
          (setdefault_update c [] (\<lambda>sis. sis @ [(s, item)]) T)" for T :: "(string \<times> (string \<times> json) list) list"
  proof (rule setdefault_update_map)
    show "setdefault_update s [] (\<lambda>items. items @ [item]) (group_by_first_seen v) =
          group_by_first_seen (v @ [(s, item)])" for v
      by (rule setdefault_update_group)
    show "setdefault_update s [] (\<lambda>items. items @ [item]) [] =
          group_by_first_seen ([] @ [(s, item)])"
      by (simp add: group_by_first_seen_def)
  qed
  then show ?thesis
    by (simp add: append_item_def grouped_table_def setdefault_update_group)
qed

lemma dynamic_loop_grouped:
  "dynamic_loop w logo_dir ps (grouped_table lis0) fs = Inr (cats, fs') \<Longrightarrow>
   \<exists>ls its. collect (map category_labels ps) = Inr ls \<and>
            collect (map (item_of w logo_dir) ps) = Inr its \<and>
            cats = grouped_table (lis0 @ zip ls its)"
proof (induction ps arbitrary: lis0 fs)
  case Nil
  then show ?case by simp
next
  case (Cons p ps)
  from Cons.prems obtain c s item fs1 where
    l: "category_labels p = Inr (c, s)" and
    i: "dynamic_item w logo_dir p fs = Inr (item, fs1)" and
    r: "dynamic_loop w logo_dir ps (append_item c s item (grouped_table lis0)) fs1 = Inr (cats, fs')"
    by (auto split: sum.splits prod.splits)
  from r have "dynamic_loop w logo_dir ps (grouped_table (lis0 @ [((c, s), item)])) fs1 = Inr (cats, fs')"
    by (simp add: append_item_grouped_table)
  from Cons.IH [OF this] obtain ls its where
    "collect (map category_labels ps) = Inr ls"
    "collect (map (item_of w logo_dir) ps) = Inr its"
    "cats = grouped_table ((lis0 @ [((c, s), item)]) @ zip ls its)"
    by blast
  moreover from i have "item_of w logo_dir p = Inr item"
    by (simp add: dynamic_item_eq_build_item build_item_item_of)
  ultimately show ?case using l
    by (intro exI [of _ "(c, s) # ls"] exI [of _ "item # its"]) simp
qed

lemma dynamic_loop_succeeds:
  "collect (map category_labels ps) = Inr ls \<Longrightarrow>
   collect (map (item_of w logo_dir) ps) = Inr its \<Longrightarrow>
   \<exists>fs'. dynamic_loop w logo_dir ps (grouped_table lis0) fs =
           Inr (grouped_table (lis0 @ zip ls its), fs')"
proof (induction ps arbitrary: ls its lis0 fs)
  case Nil
  then show ?case by simp
next
  case (Cons p ps)
  from Cons.prems obtain l ls' where l: "category_labels p = Inr l" "collect (map category_labels ps) = Inr ls'" "ls = l # ls'"
    by (auto split: sum.splits)
  from Cons.prems obtain item its' where i: "item_of w logo_dir p = Inr item" "collect (map (item_of w logo_dir) ps) = Inr its'" "its = item # its'"
    by (auto split: sum.splits)
  from item_of_build_item [OF i(1), of fs] obtain fs1 where b: "build_item w logo_dir p fs = Inr (item, fs1)" ..
  from Cons.IH [OF l(2) i(2), of "lis0 @ [(l, item)]" fs1]
  obtain fs' where "dynamic_loop w logo_dir ps (grouped_table (lis0 @ [(l, item)])) fs1 =
           Inr (grouped_table ((lis0 @ [(l, item)]) @ zip ls' its'), fs')" ..
  with l i b show ?case
    by (cases l) (simp add: dynamic_item_eq_build_item append_item_grouped_table)
qed

lemma category_list_grouped_table:
  "JDict [(''categories'', JList (category_list (grouped_table lis)))] = dynamic_layout lis"
  by (simp add: category_list_def grouped_table_def dynamic_layout_def category_entry_def
      subcat_entry_def comp_def)

lemma grouped_table_Nil: "grouped_table [] = []"
  by (simp add: grouped_table_def group_by_first_seen_def)

lemma dynamic_layout_iff:
  "(\<exists>fs'. build_landscape_from_dynamic w logo_dir ps fs = Inr (doc, fs')) \<longleftrightarrow>
   ensure_logo_dir w logo_dir = Inr () \<and>
   (\<exists>ls its. collect (map category_labels ps) = Inr ls \<and>
            collect (map (item_of w logo_dir) ps) = Inr its \<and>
            doc = dynamic_layout (zip ls its))"
proof
  assume "\<exists>fs'. build_landscape_from_dynamic w logo_dir ps fs = Inr (doc, fs')"
  then obtain fs' cats where e: "ensure_logo_dir w logo_dir = Inr ()"
    and l: "dynamic_loop w logo_dir ps (grouped_table []) fs = Inr (cats, fs')"
    and d: "doc = JDict [(''categories'', JList (category_list cats))]"
    by (auto simp: build_landscape_from_dynamic_def grouped_table_Nil split: sum.splits)
  from dynamic_loop_grouped [OF l] d e show "ensure_logo_dir w logo_dir = Inr () \<and>
   (\<exists>ls its. collect (map category_labels ps) = Inr ls \<and>
            collect (map (item_of w logo_dir) ps) = Inr its \<and>
            doc = dynamic_layout (zip ls its))"
    by (auto simp: category_list_grouped_table)
next
  assume a: "ensure_logo_dir w logo_dir = Inr () \<and>
   (\<exists>ls its. collect (map category_labels ps) = Inr ls \<and>
            collect (map (item_of w logo_dir) ps) = Inr its \<and>
            doc = dynamic_layout (zip ls its))"
  then obtain ls its where l: "collect (map category_labels ps) = Inr ls"
    and i: "collect (map (item_of w logo_dir) ps) = Inr its"
    and d: "doc = dynamic_layout (zip ls its)" by blast
  from dynamic_loop_succeeds [OF l i, of "[]" fs] obtain fs' where
    "dynamic_loop w logo_dir ps [] fs = Inr (grouped_table (zip ls its), fs')"
    by (auto simp: grouped_table_Nil)
  with a d show "\<exists>fs'. build_landscape_from_dynamic w logo_dir ps fs = Inr (doc, fs')"
    by (simp add: build_landscape_from_dynamic_def category_list_grouped_table)
qed

lemma doc_categories_dynamic_layout:
  "doc_categories (dynamic_layout lis) =
   map (\<lambda>cat. JDict [(''name'', JStr (fst cat)),
                      (''subcategories'', JList
                         (map (\<lambda>sub. JDict [(''name'', JStr (fst sub)),
                                            (''items'', JList (snd sub))])
                              (group_by_first_seen (snd cat))))])
       (group_by_first_seen (map (\<lambda>ni. (fst (fst ni), (snd (fst ni), snd ni))) lis))"
  by (simp add: doc_categories_def dynamic_layout_def)

lemma category_names_dynamic_layout:
  "map entry_name (doc_categories (dynamic_layout lis)) =
   map JStr (first_seen (map (\<lambda>ni. fst (fst ni)) lis))"
  by (simp add: doc_categories_dynamic_layout entry_name_def dict_get_def
      group_by_first_seen_def comp_def)

lemma concat_concat_map: "concat (concat (map f xs)) = concat (map (\<lambda>x. concat (f x)) xs)"
  by (induction xs) auto

lemma doc_items_dynamic_layout:
  "doc_items (dynamic_layout lis) =
   concat (map (\<lambda>cat. concat (map snd (group_by_first_seen (snd cat))))
     (group_by_first_seen (map (\<lambda>ni. (fst (fst ni), (snd (fst ni), snd ni))) lis)))"
  by (simp add: doc_items_def doc_categories_dynamic_layout category_subcategories_def
      subcategory_items_def map_concat comp_def concat_concat_map)

lemma mset_doc_items_dynamic_layout:
  "mset (doc_items (dynamic_layout lis)) = mset (map snd lis)"
proof -
  let ?L = "map (\<lambda>ni. (fst (fst ni), (snd (fst ni), snd ni))) lis"
  have "mset (doc_items (dynamic_layout lis)) =
        mset (concat (map (\<lambda>cat. map snd (snd cat)) (group_by_first_seen ?L)))"
    unfolding doc_items_dynamic_layout
    by (rule mset_concat_map_cong) (rule mset_group_by_first_seen)
  also have "concat (map (\<lambda>cat. map snd (snd cat)) (group_by_first_seen ?L)) =
        map snd (concat (map snd (group_by_first_seen ?L)))"
    by (simp add: map_concat comp_def)
  also have "mset \<dots> = image_mset snd (mset (map snd ?L))"
    by (simp only: mset_map mset_group_by_first_seen)
  also have "\<dots> = mset (map snd lis)"
    by (simp add: comp_def multiset.map_comp)
  finally show ?thesis .
qed

text \<open>
  Claim C5. Whenever the dynamic mode returns a document, every project has a pair of
  names and an item, and the document is \<open>dynamic_layout\<close> of these in load order: the
  categories in the order in which their names first occur in the input, the
  subcategories of a category in the order in which their names first occur among the
  projects of that category, the items of a subcategory in load order. Nothing is sorted.
\<close>

theorem dynamic_first_occurrence_order:
  assumes "build_landscape_from_dynamic w logo_dir ps fs = Inr (doc, fs')"
  shows "\<exists>ls its. collect (map category_labels ps) = Inr ls \<and>
           collect (map (item_of w logo_dir) ps) = Inr its \<and>
           doc = dynamic_layout (zip ls its) \<and>
           map entry_name (doc_categories doc) = map JStr (first_seen (map fst ls))"
proof -
  from assms dynamic_layout_iff [of w logo_dir ps fs doc]
  obtain ls its where l: "collect (map category_labels ps) = Inr ls"
    and i: "collect (map (item_of w logo_dir) ps) = Inr its"
    and d: "doc = dynamic_layout (zip ls its)"
    by blast
  from l i have "length ls = length its"
    by (simp add: collect_length)
  then have "map (\<lambda>ni. fst (fst ni)) (zip ls its) = map fst ls"
    by (induction ls its rule: list_induct2) simp_all
  with d have "map entry_name (doc_categories doc) = map JStr (first_seen (map fst ls))"
    by (simp add: category_names_dynamic_layout)
  with l i d show ?thesis by blast
qed

theorem dynamic_first_occurrence_order_witness:
  "\<exists>ls its.
     collect (map category_labels
       [[(''name'', JStr ''n1''), (''category'', JStr ''Tools/b'')],
        [(''name'', JStr ''n2''), (''category'', JStr ''Apps'')],
        [(''name'', JStr ''n3''), (''category'', JStr ''Tools/a'')],
        [(''name'', JStr ''n4''), (''category'', JStr ''Tools/b'')]]) = Inr ls \<and>
     collect (map (item_of online None)
       [[(''name'', JStr ''n1''), (''category'', JStr ''Tools/b'')],
        [(''name'', JStr ''n2''), (''category'', JStr ''Apps'')],
        [(''name'', JStr ''n3''), (''category'', JStr ''Tools/a'')],
        [(''name'', JStr ''n4''), (''category'', JStr ''Tools/b'')]]) = Inr its \<and>
     JDict [(''categories'', JList
       [JDict [(''name'', JStr ''Tools''),
               (''subcategories'', JList
                  [JDict [(''name'', JStr ''b''),
                          (''items'', JList
                             [JDict [(''name'', JStr ''n1''), (''description'', JNull),
                                     (''homepage_url'', JNull),
                                     (''logo'', JStr ''placeholder.svg'')],
                              JDict [(''name'', JStr ''n4''), (''description'', JNull),
                                     (''homepage_url'', JNull),
                                     (''logo'', JStr ''placeholder.svg'')]])],
                   JDict [(''name'', JStr ''a''),
                          (''items'', JList
                             [JDict [(''name'', JStr ''n3''), (''description'', JNull),
                                     (''homepage_url'', JNull),
                                     (''logo'', JStr ''placeholder.svg'')]])]])],
        JDict [(''name'', JStr ''Apps''),
               (''subcategories'', JList
                  [JDict [(''name'', JStr ''Misc''),
                          (''items'', JList
                             [JDict [(''name'', JStr ''n2''), (''description'', JNull),
                                     (''homepage_url'', JNull),
                                     (''logo'', JStr ''placeholder.svg'')]])]])]])]
       = dynamic_layout (zip ls its) \<and>
     [JStr ''Tools'', JStr ''Apps''] = map JStr (first_seen (map fst ls))"
proof -
  have e: "build_landscape_from_dynamic online None
       [[(''name'', JStr ''n1''), (''category'', JStr ''Tools/b'')],
        [(''name'', JStr ''n2''), (''category'', JStr ''Apps'')],
        [(''name'', JStr ''n3''), (''category'', JStr ''Tools/a'')],
        [(''name'', JStr ''n4''), (''category'', JStr ''Tools/b'')]] Map.empty =
     Inr (JDict [(''categories'', JList
       [JDict [(''name'', JStr ''Tools''),
               (''subcategories'', JList
                  [JDict [(''name'', JStr ''b''),
                          (''items'', JList
                             [JDict [(''name'', JStr ''n1''), (''description'', JNull),
                                     (''homepage_url'', JNull),
                                     (''logo'', JStr ''placeholder.svg'')],
                              JDict [(''name'', JStr ''n4''), (''description'', JNull),
                                     (''homepage_url'', JNull),
                                     (''logo'', JStr ''placeholder.svg'')]])],
                   JDict [(''name'', JStr ''a''),
                          (''items'', JList
                             [JDict [(''name'', JStr ''n3''), (''description'', JNull),
                                     (''homepage_url'', JNull),
                                     (''logo'', JStr ''placeholder.svg'')]])]])],
        JDict [(''name'', JStr ''Apps''),
               (''subcategories'', JList
                  [JDict [(''name'', JStr ''Misc''),
                          (''items'', JList
                             [JDict [(''name'', JStr ''n2''), (''description'', JNull),
                                     (''homepage_url'', JNull),
                                     (''logo'', JStr ''placeholder.svg'')]])]])]])], Map.empty)"
    by (simp add: build_landscape_from_dynamic_def ensure_logo_dir_def category_labels_def
        dict_get_def py_strip_def py_isspace_def dynamic_item_def add_repo_url_def
        resolve_logo_def append_item_def category_list_def category_entry_def subcat_entry_def
        placeholder_def)
  from dynamic_first_occurrence_order [OF e] show ?thesis
    by (simp add: doc_categories_def entry_name_def dict_get_def)
qed

section \<open>Static mode: the loops\<close>

lemma found_Nil [simp]: "found pbn [] = []"
  by (simp add: found_def)

lemma found_append: "found pbn (xs @ ys) = found pbn xs @ found pbn ys"
  by (simp add: found_def)

lemma found_Cons:
  "found pbn (k # ks) =
     (case map_of pbn k of None \<Rightarrow> [] | Some p \<Rightarrow> if p \<noteq> [] then [(k, p)] else []) @ found pbn ks"
  by (simp add: found_def)

lemma the_item_eq: "item_of w logo_dir p = Inr item \<Longrightarrow> the_item w logo_dir p = item"
  by (simp add: the_item_def)

lemma static_items_loop_layout:
  "static_items_loop w logo_dir pbn names items assigned fs = Inr (items', assigned', fs') \<Longrightarrow>
   \<exists>ks. collect (map py_key names) = Inr ks \<and>
        (\<forall>kp \<in> set (found pbn ks). item_of w logo_dir (snd kp) = Inr (the_item w logo_dir (snd kp))) \<and>
        items' = items @ map (\<lambda>kp. the_item w logo_dir (snd kp)) (found pbn ks) \<and>
        assigned' = assigned \<union> fst ` set (found pbn ks)"
proof (induction names arbitrary: items assigned fs)
  case Nil
  then show ?case by simp
next
  case (Cons n names)
  from Cons.prems obtain k where k: "py_key n = Inr k"
    by (auto split: sum.splits)
  show ?case
  proof (cases "map_of pbn k")
    case None
    with Cons.prems k have
      "static_items_loop w logo_dir pbn names items assigned fs = Inr (items', assigned', fs')"
      by simp
    from Cons.IH [OF this] k None show ?thesis
      by (auto simp: found_Cons)
  next
    case (Some p)
    show ?thesis
    proof (cases "p = []")
      case True
      with Cons.prems k Some have
        "static_items_loop w logo_dir pbn names items assigned fs = Inr (items', assigned', fs')"
        by simp
      from Cons.IH [OF this] k Some True show ?thesis
        by (auto simp: found_Cons)
    next
      case False
      with Cons.prems k Some obtain item fs1 where
        b: "build_item w logo_dir p fs = Inr (item, fs1)" and
        r: "static_items_loop w logo_dir pbn names (items @ [item]) (insert k assigned) fs1 =
              Inr (items', assigned', fs')"
        by (auto split: sum.splits)
      from b have i: "item_of w logo_dir p = Inr item" "the_item w logo_dir p = item"
        by (simp_all add: build_item_item_of the_item_eq)
      from Cons.IH [OF r] obtain ks where
        "collect (map py_key names) = Inr ks"
        "\<forall>kp \<in> set (found pbn ks). item_of w logo_dir (snd kp) = Inr (the_item w logo_dir (snd kp))"
        "items' = (items @ [item]) @ map (\<lambda>kp. the_item w logo_dir (snd kp)) (found pbn ks)"
        "assigned' = insert k assigned \<union> fst ` set (found pbn ks)"
        by blast
      with k Some False i show ?thesis
        by (intro exI [of _ "k # ks"]) (simp add: found_Cons)
    qed
  qed
qed

lemma static_subs_loop_layout:
  "static_subs_loop w logo_dir pbn subs new_subs assigned fs = Inr (new_subs', assigned', fs') \<Longrightarrow>
   \<exists>svs. collect (map read_sub subs) = Inr svs \<and>
        (\<forall>kp \<in> set (found pbn (concat (map snd svs))).
            item_of w logo_dir (snd kp) = Inr (the_item w logo_dir (snd kp))) \<and>
        new_subs' = new_subs @ map (layout_sub (the_item w logo_dir) pbn) svs \<and>
        assigned' = assigned \<union> fst ` set (found pbn (concat (map snd svs)))"
proof (induction subs arbitrary: new_subs assigned fs)
  case Nil
  then show ?case by simp
next
  case (Cons sub subs)
  from Cons.prems obtain sub_name names_value names items assigned1 fs1 where
    n: "py_get sub ''name'' (JStr []) = Inr sub_name" and
    v: "py_get sub ''items'' (JList []) = Inr names_value" and
    it: "py_iter names_value = Inr names" and
    l: "static_items_loop w logo_dir pbn names [] assigned fs = Inr (items, assigned1, fs1)" and
    r: "static_subs_loop w logo_dir pbn subs
          (new_subs @ [JDict [(''name'', sub_name), (''items'', JList items)]]) assigned1 fs1 =
        Inr (new_subs', assigned', fs')"
    by (auto split: sum.splits)
  from static_items_loop_layout [OF l] obtain ks where ks:
    "collect (map py_key names) = Inr ks"
    "\<forall>kp \<in> set (found pbn ks). item_of w logo_dir (snd kp) = Inr (the_item w logo_dir (snd kp))"
    "items = map (\<lambda>kp. the_item w logo_dir (snd kp)) (found pbn ks)"
    "assigned1 = assigned \<union> fst ` set (found pbn ks)"
    by auto
  from Cons.IH [OF r] obtain svs where svs:
    "collect (map read_sub subs) = Inr svs"
    "\<forall>kp \<in> set (found pbn (concat (map snd svs))).
        item_of w logo_dir (snd kp) = Inr (the_item w logo_dir (snd kp))"
    "new_subs' = (new_subs @ [JDict [(''name'', sub_name), (''items'', JList items)]]) @
        map (layout_sub (the_item w logo_dir) pbn) svs"
    "assigned' = assigned1 \<union> fst ` set (found pbn (concat (map snd svs)))"
    by blast
  have rs: "read_sub sub = Inr (sub_name, ks)"
    using n v it ks(1) by (simp add: read_sub_def)
  show ?case
    using rs ks svs
    by (intro exI [of _ "(sub_name, ks) # svs"])
      (auto simp: found_append layout_sub_def)
qed

lemma static_cats_loop_layout:
  "static_cats_loop w logo_dir pbn cats outp assigned fs = Inr (outp', assigned', fs') \<Longrightarrow>
   \<exists>pv. read_plan cats = Inr pv \<and>
        (\<forall>kp \<in> set (found pbn (plan_refs pv)).
            item_of w logo_dir (snd kp) = Inr (the_item w logo_dir (snd kp))) \<and>
        outp' = outp @ map (layout_cat (the_item w logo_dir) pbn) pv \<and>
        assigned' = assigned \<union> fst ` set (found pbn (plan_refs pv))"
proof (induction cats arbitrary: outp assigned fs)
  case Nil
  then show ?case by (simp add: read_plan_def plan_refs_def)
next
  case (Cons cat cats)
  from Cons.prems obtain subs new_subs assigned1 fs1 where
    it: "py_iter (dict_get cat ''subcategories'' (JList [])) = Inr subs" and
    l: "static_subs_loop w logo_dir pbn subs [] assigned fs = Inr (new_subs, assigned1, fs1)" and
    r: "static_cats_loop w logo_dir pbn cats
          (outp @ [JDict [(''name'', dict_get cat ''name'' (JStr [])),
                            (''subcategories'', JList new_subs)]]) assigned1 fs1 =
        Inr (outp', assigned', fs')"
    by (auto split: sum.splits)
  from static_subs_loop_layout [OF l] obtain svs where svs:
    "collect (map read_sub subs) = Inr svs"
    "\<forall>kp \<in> set (found pbn (concat (map snd svs))).
        item_of w logo_dir (snd kp) = Inr (the_item w logo_dir (snd kp))"
    "new_subs = map (layout_sub (the_item w logo_dir) pbn) svs"
    "assigned1 = assigned \<union> fst ` set (found pbn (concat (map snd svs)))"
    by auto
  from Cons.IH [OF r] obtain pv where pv:
    "read_plan cats = Inr pv"
    "\<forall>kp \<in> set (found pbn (plan_refs pv)).
        item_of w logo_dir (snd kp) = Inr (the_item w logo_dir (snd kp))"
    "outp' = (outp @ [JDict [(''name'', dict_get cat ''name'' (JStr [])),
                            (''subcategories'', JList new_subs)]]) @
        map (layout_cat (the_item w logo_dir) pbn) pv"
    "assigned' = assigned1 \<union> fst ` set (found pbn (plan_refs pv))"
    by blast
  have rc: "read_cat cat = Inr (dict_get cat ''name'' (JStr []), svs)"
    using it svs(1) by (simp add: read_cat_def)
  show ?case
    using rc svs pv
    by (intro exI [of _ "(dict_get cat ''name'' (JStr []), svs) # pv"])
      (auto simp: found_append layout_cat_def read_plan_def plan_refs_def)
qed

lemma unassigned_loop_layout:
  "unassigned_loop w logo_dir pbn assigned items fs = Inr (items', fs') \<Longrightarrow>
   (\<forall>kp \<in> set (filter (\<lambda>kp. fst kp \<notin> assigned) pbn).
       item_of w logo_dir (snd kp) = Inr (the_item w logo_dir (snd kp))) \<and>
   items' = items @ map (\<lambda>kp. the_item w logo_dir (snd kp)) (filter (\<lambda>kp. fst kp \<notin> assigned) pbn)"
proof (induction pbn arbitrary: items fs)
  case Nil
  then show ?case by simp
next
  case (Cons kp pbn)
  obtain k p where kp: "kp = (k, p)" by (cases kp)
  show ?case
  proof (cases "k \<in> assigned")
    case True
    with Cons.prems kp have "unassigned_loop w logo_dir pbn assigned items fs = Inr (items', fs')"
      by simp
    from Cons.IH [OF this] True kp show ?thesis by simp
  next
    case False
    with Cons.prems kp obtain item fs1 where
      b: "build_item w logo_dir p fs = Inr (item, fs1)" and
      r: "unassigned_loop w logo_dir pbn assigned (items @ [item]) fs1 = Inr (items', fs')"
      by (auto split: sum.splits)
    from b have i: "item_of w logo_dir p = Inr item" "the_item w logo_dir p = item"
      by (simp_all add: build_item_item_of the_item_eq)
    from Cons.IH [OF r] False kp i show ?thesis by simp
  qed
qed

section \<open>Static mode: the lookup by name\<close>

lemma first_seen_append:
  "first_seen (xs @ ys) = first_seen xs @ filter (\<lambda>y. y \<notin> set xs) (first_seen ys)"
  by (induction xs) (auto intro: filter_cong)

lemma map_fst_dict_set:
  "map fst (dict_set k v d) = (if k \<in> fst ` set d then map fst d else map fst d @ [k])"
  by (induction d) (force split: if_splits)+

lemma map_of_dict_set: "map_of (dict_set k v d) = (map_of d)(k \<mapsto> v)"
  by (induction d) auto

lemma dict_set_new: "k \<notin> fst ` set d \<Longrightarrow> dict_set k v d = d @ [(k, v)]"
  by (induction d) auto

lemma set_dict_set: "set (dict_set k v d) \<subseteq> insert (k, v) (set d)"
  by (induction d) (auto split: if_splits)

lemma projects_by_name_loop_keys:
  "projects_by_name_loop ps acc = Inr pbn \<Longrightarrow> \<exists>ks. collect (map name_key ps) = Inr ks"
  by (induction ps arbitrary: acc) (auto simp: name_key_def split: sum.splits)

lemma projects_by_name_loop_fold:
  "collect (map name_key ps) = Inr ks \<Longrightarrow>
   projects_by_name_loop ps acc = Inr (fold (\<lambda>kp d. dict_set (fst kp) (snd kp) d) (zip ks ps) acc)"
  by (induction ps arbitrary: acc ks) (auto simp: name_key_def split: sum.splits)

lemma map_of_fold_dict_set:
  "map_of (fold (\<lambda>kp d. dict_set (fst kp) (snd kp) d) kps acc) k =
   (map_of acc ++ map_of (rev kps)) k"
  by (induction kps arbitrary: acc)
    (auto simp: map_of_dict_set map_add_def split: option.splits)

lemma keys_fold_dict_set:
  "distinct (map fst acc) \<Longrightarrow>
   map fst (fold (\<lambda>kp d. dict_set (fst kp) (snd kp) d) kps acc) =
   first_seen (map fst acc @ map fst kps)"
proof (induction kps arbitrary: acc)
  case Nil
  then show ?case by (simp add: first_seen_distinct)
next
  case (Cons kp kps)
  let ?acc = "dict_set (fst kp) (snd kp) acc"
  from Cons.prems have d: "distinct (map fst ?acc)"
    by (auto simp: map_fst_dict_set)
  have "first_seen (map fst ?acc @ map fst kps) = first_seen (map fst acc @ fst kp # map fst kps)"
    using Cons.prems
    by (auto simp: map_fst_dict_set first_seen_append first_seen_distinct intro: filter_cong)
  with Cons.IH [OF d] show ?case by simp
qed

lemma fold_dict_set_distinct:
  "distinct (map fst acc @ map fst kps) \<Longrightarrow>
   fold (\<lambda>kp d. dict_set (fst kp) (snd kp) d) kps acc = acc @ kps"
proof (induction kps arbitrary: acc)
  case Nil
  then show ?case by simp
next
  case (Cons kp kps)
  from Cons.prems have "dict_set (fst kp) (snd kp) acc = acc @ [kp]"
    by (auto simp: dict_set_new)
  with Cons.IH [of "acc @ [kp]"] Cons.prems show ?case by auto
qed

lemma set_fold_dict_set:
  "set (fold (\<lambda>kp d. dict_set (fst kp) (snd kp) d) kps acc) \<subseteq> set acc \<union> set kps"
proof (induction kps arbitrary: acc)
  case Nil
  then show ?case by simp
next
  case (Cons kp kps)
  from Cons.IH [of "dict_set (fst kp) (snd kp) acc"] set_dict_set [of "fst kp" "snd kp" acc]
  show ?case by auto
qed

section \<open>Static mode: the document\<close>

lemma static_layout_forward:
  assumes "build_landscape_from_static w logo_dir ps plan fs = Inr (doc, fs')"
  shows "\<exists>ks pbn pv.
           collect (map name_key ps) = Inr ks \<and>
           projects_by_name_loop ps [] = Inr pbn \<and>
           ensure_logo_dir w logo_dir = Inr () \<and>
           read_plan plan = Inr pv \<and>
           (\<forall>kp \<in> set (found pbn (plan_refs pv)) \<union> set (leftover pbn pv).
               item_of w logo_dir (snd kp) = Inr (the_item w logo_dir (snd kp))) \<and>
           doc = static_layout (the_item w logo_dir) pbn pv"
proof -
  from assms obtain pbn outp assigned fs1 items where
    p: "projects_by_name_loop ps [] = Inr pbn" and
    e: "ensure_logo_dir w logo_dir = Inr ()" and
    c: "static_cats_loop w logo_dir pbn plan [] {} fs = Inr (outp, assigned, fs1)" and
    u: "unassigned_loop w logo_dir pbn assigned [] fs1 = Inr (items, fs')" and
    d: "doc = JDict [(''categories'',
           JList (if items \<noteq> [] then outp @ [misc_category items] else outp))]"
    by (auto simp: build_landscape_from_static_def split: sum.splits)
  from projects_by_name_loop_keys [OF p] obtain ks where ks: "collect (map name_key ps) = Inr ks" ..
  from static_cats_loop_layout [OF c] obtain pv where pv:
    "read_plan plan = Inr pv"
    "\<forall>kp \<in> set (found pbn (plan_refs pv)).
        item_of w logo_dir (snd kp) = Inr (the_item w logo_dir (snd kp))"
    "outp = map (layout_cat (the_item w logo_dir) pbn) pv"
    "assigned = fst ` set (found pbn (plan_refs pv))"
    by auto
  from unassigned_loop_layout [OF u] pv(4) have un:
    "\<forall>kp \<in> set (leftover pbn pv). item_of w logo_dir (snd kp) = Inr (the_item w logo_dir (snd kp))"
    "items = map (\<lambda>kp. the_item w logo_dir (snd kp)) (leftover pbn pv)"
    by (simp_all add: leftover_def)
  from d pv(3) un(2) have "doc = static_layout (the_item w logo_dir) pbn pv"
    by (simp add: static_layout_def misc_category_def)
  with ks p e pv(1,2) un(1) show ?thesis by blast
qed

lemma static_items_loop_succeeds:
  "collect (map py_key names) = Inr ks \<Longrightarrow>
   \<forall>kp \<in> set (found pbn ks). \<exists>item. item_of w logo_dir (snd kp) = Inr item \<Longrightarrow>
   \<exists>r. static_items_loop w logo_dir pbn names items assigned fs = Inr r"
proof (induction names arbitrary: ks items assigned fs)
  case Nil
  then show ?case by simp
next
  case (Cons n names)
  from Cons.prems(1) obtain k ks' where k: "py_key n = Inr k"
    "collect (map py_key names) = Inr ks'" "ks = k # ks'"
    by (auto split: sum.splits)
  from Cons.prems(2) k(3) have r: "\<forall>kp \<in> set (found pbn ks'). \<exists>item. item_of w logo_dir (snd kp) = Inr item"
    by (simp add: found_Cons)
  show ?case
  proof (cases "map_of pbn k")
    case None
    with Cons.IH [OF k(2) r] k(1) show ?thesis by simp
  next
    case (Some p)
    show ?thesis
    proof (cases "p = []")
      case True
      with Cons.IH [OF k(2) r] k(1) Some show ?thesis by simp
    next
      case False
      with Cons.prems(2) k(3) Some obtain item where "item_of w logo_dir p = Inr item"
        by (auto simp: found_Cons)
      from item_of_build_item [OF this, of fs] obtain fs1 where
        "build_item w logo_dir p fs = Inr (item, fs1)" ..
      with Cons.IH [OF k(2) r, of "items @ [item]" "insert k assigned" fs1] k(1) Some False
      show ?thesis by simp
    qed
  qed
qed

lemma static_subs_loop_succeeds:
  "collect (map read_sub subs) = Inr svs \<Longrightarrow>
   \<forall>kp \<in> set (found pbn (concat (map snd svs))). \<exists>item. item_of w logo_dir (snd kp) = Inr item \<Longrightarrow>
   \<exists>r. static_subs_loop w logo_dir pbn subs new_subs assigned fs = Inr r"
proof (induction subs arbitrary: svs new_subs assigned fs)
  case Nil
  then show ?case by simp
next
  case (Cons sub subs)
  from Cons.prems(1) obtain sv svs' where s: "read_sub sub = Inr sv"
    "collect (map read_sub subs) = Inr svs'" "svs = sv # svs'"
    by (auto split: sum.splits)
  from s(1) obtain sub_name names_value names ks where
    n: "py_get sub ''name'' (JStr []) = Inr sub_name" and
    v: "py_get sub ''items'' (JList []) = Inr names_value" and
    it: "py_iter names_value = Inr names" and
    ks: "collect (map py_key names) = Inr ks" and
    sv: "sv = (sub_name, ks)"
    by (auto simp: read_sub_def split: sum.splits)
  from Cons.prems(2) s(3) sv have
    a: "\<forall>kp \<in> set (found pbn ks). \<exists>item. item_of w logo_dir (snd kp) = Inr item" and
    b: "\<forall>kp \<in> set (found pbn (concat (map snd svs'))). \<exists>item. item_of w logo_dir (snd kp) = Inr item"
    by (simp_all add: found_append)
  from static_items_loop_succeeds [OF ks a, of "[]" assigned fs] obtain items assigned1 fs1 where
    "static_items_loop w logo_dir pbn names [] assigned fs = Inr (items, assigned1, fs1)"
    by (metis prod_cases3)
  with Cons.IH [OF s(2) b] n v it show ?case by simp
qed

lemma static_cats_loop_succeeds:
  "read_plan cats = Inr pv \<Longrightarrow>
   \<forall>kp \<in> set (found pbn (plan_refs pv)). \<exists>item. item_of w logo_dir (snd kp) = Inr item \<Longrightarrow>
   \<exists>r. static_cats_loop w logo_dir pbn cats outp assigned fs = Inr r"
proof (induction cats arbitrary: pv outp assigned fs)
  case Nil
  then show ?case by simp
next
  case (Cons cat cats)
  from Cons.prems(1) obtain cv pv' where c: "read_cat cat = Inr cv"
    "read_plan cats = Inr pv'" "pv = cv # pv'"
    by (auto simp: read_plan_def split: sum.splits)
  from c(1) obtain subs svs where
    it: "py_iter (dict_get cat ''subcategories'' (JList [])) = Inr subs" and
    svs: "collect (map read_sub subs) = Inr svs" and
    cv: "cv = (dict_get cat ''name'' (JStr []), svs)"
    by (auto simp: read_cat_def split: sum.splits)
  from Cons.prems(2) c(3) cv have
    a: "\<forall>kp \<in> set (found pbn (concat (map snd svs))). \<exists>item. item_of w logo_dir (snd kp) = Inr item" and
    b: "\<forall>kp \<in> set (found pbn (plan_refs pv')). \<exists>item. item_of w logo_dir (snd kp) = Inr item"
    by (simp_all add: found_append plan_refs_def)
  from static_subs_loop_succeeds [OF svs a, of "[]" assigned fs] obtain new_subs assigned1 fs1 where
    "static_subs_loop w logo_dir pbn subs [] assigned fs = Inr (new_subs, assigned1, fs1)"
    by (metis prod_cases3)
  with Cons.IH [OF c(2) b] it show ?case by simp
qed

lemma unassigned_loop_succeeds:
  "\<forall>kp \<in> set pbn. \<exists>item. item_of w logo_dir (snd kp) = Inr item \<Longrightarrow>
   \<exists>r. unassigned_loop w logo_dir pbn assigned items fs = Inr r"
proof (induction pbn arbitrary: items fs)
  case Nil
  then show ?case by simp
next
  case (Cons kp pbn)
  obtain k p where kp: "kp = (k, p)" by (cases kp)
  from Cons.prems kp obtain item where "item_of w logo_dir p = Inr item" by auto
  from item_of_build_item [OF this, of fs] obtain fs1 where
    "build_item w logo_dir p fs = Inr (item, fs1)" ..
  with Cons.IH [of "items @ [item]" fs1] Cons.IH [of items fs] Cons.prems kp show ?case
    by simp
qed

lemma found_subset: "set (found pbn ks) \<subseteq> set pbn"
proof
  fix kp assume "kp \<in> set (found pbn ks)"
  then obtain k where "kp \<in> set (case map_of pbn k of None \<Rightarrow> []
      | Some p \<Rightarrow> if p \<noteq> [] then [(k, p)] else [])"
    by (auto simp: found_def)
  then have "map_of pbn (fst kp) = Some (snd kp)"
    by (cases "map_of pbn k") (auto split: if_splits)
  then show "kp \<in> set pbn"
    using map_of_SomeD [of pbn "fst kp" "snd kp"] by simp
qed

lemma lookup_values:
  assumes "collect (map name_key ps) = Inr ks"
    and "projects_by_name_loop ps [] = Inr pbn"
  shows "snd ` set pbn \<subseteq> set ps"
proof -
  from assms projects_by_name_loop_fold [OF assms(1), of "[]"]
  have "pbn = fold (\<lambda>kp d. dict_set (fst kp) (snd kp) d) (zip ks ps) []" by simp
  with set_fold_dict_set [of "zip ks ps" "[]"] have "set pbn \<subseteq> set (zip ks ps)"
    by simp
  then show ?thesis
    using set_zip_rightD [of _ _ ks ps] by fastforce
qed

lemma static_succeeds:
  assumes ks: "collect (map name_key ps) = Inr ks"
    and e: "ensure_logo_dir w logo_dir = Inr ()"
    and pv: "read_plan plan = Inr pv"
    and items: "\<forall>p \<in> set ps. \<exists>item. item_of w logo_dir p = Inr item"
  shows "\<exists>doc fs'. build_landscape_from_static w logo_dir ps plan fs = Inr (doc, fs')"
proof -
  from projects_by_name_loop_fold [OF ks, of "[]"] obtain pbn where
    p: "projects_by_name_loop ps [] = Inr pbn" by blast
  from lookup_values [OF ks p] items have
    all: "\<forall>kp \<in> set pbn. \<exists>item. item_of w logo_dir (snd kp) = Inr item" by auto
  with found_subset [of pbn "plan_refs pv"] have
    "\<forall>kp \<in> set (found pbn (plan_refs pv)). \<exists>item. item_of w logo_dir (snd kp) = Inr item"
    by blast
  from static_cats_loop_succeeds [OF pv this, of "[]" "{}" fs] obtain outp assigned fs1 where
    c: "static_cats_loop w logo_dir pbn plan [] {} fs = Inr (outp, assigned, fs1)"
    by (metis prod_cases3)
  from unassigned_loop_succeeds [OF all, of assigned "[]" fs1] obtain its fs2 where
    "unassigned_loop w logo_dir pbn assigned [] fs1 = Inr (its, fs2)"
    by (metis surj_pair)
  with p e c show ?thesis
    by (simp add: build_landscape_from_static_def)
qed

lemma doc_categories_static_layout:
  "doc_categories (static_layout f pbn pv) =
   map (layout_cat f pbn) pv @
   (if leftover pbn pv = [] then []
    else [JDict [(''name'', JStr ''Unmapped''),
                 (''subcategories'', JList
                    [JDict [(''name'', JStr ''Misc''),
                            (''items'', JList (map (\<lambda>kp. f (snd kp)) (leftover pbn pv)))]])]])"
  by (simp add: doc_categories_def static_layout_def)

lemma items_layout_cat:
  "concat (map subcategory_items (category_subcategories (layout_cat f pbn cat))) =
   map (\<lambda>kp. f (snd kp)) (found pbn (concat (map snd (snd cat))))"
  by (simp add: layout_cat_def layout_sub_def category_subcategories_def subcategory_items_def
      comp_def found_def map_concat concat_concat_map)

lemma doc_items_static_layout:
  "doc_items (static_layout f pbn pv) =
   map (\<lambda>kp. f (snd kp)) (found pbn (plan_refs pv)) @ map (\<lambda>kp. f (snd kp)) (leftover pbn pv)"
proof -
  have a: "concat (map subcategory_items (concat (map category_subcategories (map (layout_cat f pbn) pv)))) =
        map (\<lambda>kp. f (snd kp)) (found pbn (plan_refs pv))"
  proof (induction pv)
    case Nil
    then show ?case by (simp add: plan_refs_def)
  next
    case (Cons cat pv)
    with items_layout_cat [of f pbn cat] show ?case
      by (simp add: plan_refs_def found_append)
  qed
  show ?thesis
    using a
    by (simp add: doc_items_def doc_categories_static_layout category_subcategories_def
        subcategory_items_def)
qed

lemma read_plan_names:
  "read_plan plan = Inr pv \<Longrightarrow> map fst pv = map (\<lambda>cat. dict_get cat ''name'' (JStr [])) plan"
proof (induction plan arbitrary: pv)
  case Nil
  then show ?case by (simp add: read_plan_def)
next
  case (Cons cat plan)
  from Cons.prems obtain cv pv' where "read_cat cat = Inr cv" "read_plan plan = Inr pv'" "pv = cv # pv'"
    by (auto simp: read_plan_def split: sum.splits)
  with Cons.IH [of pv'] show ?case
    by (auto simp: read_cat_def split: sum.splits)
qed

lemma entry_name_layout_cat: "entry_name (layout_cat f pbn cat) = fst cat"
  by (simp add: entry_name_def layout_cat_def dict_get_def)

lemma sub_names_layout_cat:
  "map entry_name (category_subcategories (layout_cat f pbn cat)) = map fst (snd cat)"
  by (simp add: entry_name_def layout_cat_def layout_sub_def category_subcategories_def
      dict_get_def comp_def)

lemma map_of_rev_last:
  "map_of (rev xs) k = Some p \<Longrightarrow>
   \<exists>i < length xs. xs ! i = (k, p) \<and> (\<forall>j < length xs. i < j \<longrightarrow> fst (xs ! j) \<noteq> k)"
proof (induction xs rule: rev_induct)
  case Nil
  then show ?case by simp
next
  case (snoc x xs)
  show ?case
  proof (cases "fst x = k")
    case True
    with snoc.prems have "x = (k, p)" by (cases x) simp
    then show ?thesis
      by (intro exI [of _ "length xs"]) simp
  next
    case False
    with snoc.prems have "map_of (rev xs) k = Some p" by (cases x) simp
    from snoc.IH [OF this] obtain i where i: "i < length xs" "xs ! i = (k, p)"
      "\<forall>j < length xs. i < j \<longrightarrow> fst (xs ! j) \<noteq> k" by blast
    have "\<forall>j < length (xs @ [x]). i < j \<longrightarrow> fst ((xs @ [x]) ! j) \<noteq> k"
    proof (intro allI impI)
      fix j assume "j < length (xs @ [x])" "i < j"
      with i(3) False show "fst ((xs @ [x]) ! j) \<noteq> k"
        by (cases "j < length xs") (auto simp: nth_append less_Suc_eq)
    qed
    with i(1,2) show ?thesis
      by (intro exI [of _ i]) (simp add: nth_append)
  qed
qed

lemma lookup_last_wins:
  assumes "collect (map name_key ps) = Inr ks"
  shows "\<exists>pbn. projects_by_name_loop ps [] = Inr pbn \<and> map fst pbn = first_seen ks \<and>
           (distinct ks \<longrightarrow> pbn = zip ks ps) \<and>
           (\<forall>k. map_of pbn k = map_of (rev (zip ks ps)) k)"
proof -
  let ?pbn = "fold (\<lambda>kp d. dict_set (fst kp) (snd kp) d) (zip ks ps) []"
  from assms have len: "length ks = length ps"
    by (simp add: collect_length)
  have "projects_by_name_loop ps [] = Inr ?pbn"
    by (rule projects_by_name_loop_fold [OF assms])
  moreover have "map fst ?pbn = first_seen ks"
    using keys_fold_dict_set [of "[]" "zip ks ps"] len by simp
  moreover have "distinct ks \<longrightarrow> ?pbn = zip ks ps"
    using fold_dict_set_distinct [of "[]" "zip ks ps"] len by simp
  moreover have "\<forall>k. map_of ?pbn k = map_of (rev (zip ks ps)) k"
    by (simp add: map_of_fold_dict_set)
  ultimately show ?thesis by blast
qed

section \<open>Static mode: every project once\<close>

lemma map_fst_found:
  "map fst (found pbn ks) = filter (\<lambda>k. \<exists>p. map_of pbn k = Some p \<and> p \<noteq> []) ks"
  by (induction ks) (auto simp: found_Cons split: option.splits)

lemma distinct_map_fst_D: "distinct (map fst xs) \<Longrightarrow> distinct xs"
  by (simp add: distinct_map)

lemma found_mset_filter:
  assumes d: "distinct (map fst pbn)"
    and r: "distinct (filter (\<lambda>k. k \<in> fst ` set pbn) refs)"
  shows "mset (found pbn refs) =
         mset (filter (\<lambda>kp. fst kp \<in> fst ` set (found pbn refs)) pbn)"
proof -
  have "filter (\<lambda>k. \<exists>p. map_of pbn k = Some p \<and> p \<noteq> []) refs =
        filter (\<lambda>k. \<exists>p. map_of pbn k = Some p \<and> p \<noteq> []) (filter (\<lambda>k. k \<in> fst ` set pbn) refs)"
    by (force simp: map_of_eq_Some_iff [OF d] intro!: filter_cong)
  with r have "distinct (map fst (found pbn refs))"
    by (simp add: map_fst_found del: filter_filter)
  then have d1: "distinct (found pbn refs)"
    by (rule distinct_map_fst_D)
  from d have d2: "distinct (filter (\<lambda>kp. fst kp \<in> fst ` set (found pbn refs)) pbn)"
    by (simp add: distinct_map_fst_D)
  have s: "set (found pbn refs) = set (filter (\<lambda>kp. fst kp \<in> fst ` set (found pbn refs)) pbn)"
  proof (intro set_eqI iffI)
    fix kp assume "kp \<in> set (found pbn refs)"
    with found_subset [of pbn refs]
    show "kp \<in> set (filter (\<lambda>kp. fst kp \<in> fst ` set (found pbn refs)) pbn)"
      by auto
  next
    fix kp assume "kp \<in> set (filter (\<lambda>kp. fst kp \<in> fst ` set (found pbn refs)) pbn)"
    then obtain kp' where kp: "kp \<in> set pbn" "kp' \<in> set (found pbn refs)" "fst kp = fst kp'"
      by auto
    with found_subset [of pbn refs] have "kp' \<in> set pbn" by auto
    with d kp(1,3) have "kp = kp'"
      by (metis eq_key_imp_eq_value prod.collapse)
    with kp(2) show "kp \<in> set (found pbn refs)" by simp
  qed
  from d1 d2 s show ?thesis
    by (rule iffD1 [OF set_eq_iff_mset_eq_distinct])
qed

lemma found_leftover_partition:
  assumes "distinct (map fst pbn)"
    and "distinct (filter (\<lambda>k. k \<in> fst ` set pbn) (plan_refs pv))"
  shows "mset (found pbn (plan_refs pv)) + mset (leftover pbn pv) = mset pbn"
  unfolding leftover_def found_mset_filter [OF assms]
  by (simp only: mset_filter multiset_partition [symmetric])

lemma read_plan_length: "read_plan plan = Inr pv \<Longrightarrow> length pv = length plan"
  by (simp add: read_plan_def collect_length)

lemma layout_sub_unmatched:
  "\<forall>k \<in> set (snd sub). map_of pbn k = None \<Longrightarrow>
   layout_sub f pbn sub = JDict [(''name'', fst sub), (''items'', JList [])]"
  by (simp add: layout_sub_def found_def)

lemma static_plan_part:
  assumes "read_plan plan = Inr pv" and "doc = static_layout f pbn pv"
  shows "take (length plan) (doc_categories doc) = map (layout_cat f pbn) pv"
    and "map entry_name (take (length plan) (doc_categories doc)) =
         map (\<lambda>cat. dict_get cat ''name'' (JStr [])) plan"
    and "map (\<lambda>c. map entry_name (category_subcategories c)) (take (length plan) (doc_categories doc)) =
         map (\<lambda>cv. map fst (snd cv)) pv"
    and "drop (length plan) (doc_categories doc) =
         (if leftover pbn pv = [] then []
          else [JDict [(''name'', JStr ''Unmapped''),
                 (''subcategories'', JList
                    [JDict [(''name'', JStr ''Misc''),
                            (''items'', JList (map (\<lambda>kp. f (snd kp)) (leftover pbn pv)))]])]])"
proof -
  from assms(1) have len: "length pv = length plan" by (rule read_plan_length)
  with assms(2) show t: "take (length plan) (doc_categories doc) = map (layout_cat f pbn) pv"
    by (simp add: doc_categories_static_layout)
  from read_plan_names [OF assms(1)] show "map entry_name (take (length plan) (doc_categories doc)) =
         map (\<lambda>cat. dict_get cat ''name'' (JStr [])) plan"
    by (simp add: t comp_def entry_name_layout_cat)
  show "map (\<lambda>c. map entry_name (category_subcategories c)) (take (length plan) (doc_categories doc)) =
         map (\<lambda>cv. map fst (snd cv)) pv"
    by (simp add: t comp_def sub_names_layout_cat)
  from len assms(2) show "drop (length plan) (doc_categories doc) =
         (if leftover pbn pv = [] then []
          else [JDict [(''name'', JStr ''Unmapped''),
                 (''subcategories'', JList
                    [JDict [(''name'', JStr ''Misc''),
                            (''items'', JList (map (\<lambda>kp. f (snd kp)) (leftover pbn pv)))]])]])"
    by (simp add: doc_categories_static_layout)
qed


section \<open>Example runs\<close>

lemmas run_static =
  build_landscape_from_static_def ensure_logo_dir_def name_key_def dict_get_def
  build_item_def add_repo_url_def resolve_logo_def misc_category_def placeholder_def

lemmas read_doc =
  doc_items_def doc_categories_def category_subcategories_def subcategory_items_def

lemma sample_run:
  "build_landscape_from_static online None sample_projects sample_plan Map.empty =
     Inr (sample_document, Map.empty)"
  by (simp add: run_static sample_projects_def sample_plan_def sample_document_def)

lemma sample_inputs:
  "collect (map name_key sample_projects) = Inr [JStr ''A'', JStr ''B'', JStr ''C'']"
  "read_plan sample_plan =
     Inr [(JStr ''Core'', [(JStr ''Runtime'', [JStr ''C'', JStr ''A'']),
                          (JStr ''Empty'', [JStr ''Z''])]),
          (JStr ''Extra'', [])]"
  by (simp_all add: run_static sample_projects_def sample_plan_def read_plan_def read_cat_def
      read_sub_def)

lemma duplicate_run:
  "build_landscape_from_static online None duplicate_projects duplicate_plan Map.empty =
     Inr (duplicate_document, Map.empty)"
  by (simp add: run_static duplicate_projects_def duplicate_plan_def duplicate_document_def)

lemma unmatched_run:
  "build_landscape_from_static online None [[(''name'', JStr ''A'')], [(''name'', JStr ''B'')]]
     unmatched_plan Map.empty = Inr (unmatched_document, Map.empty)"
  by (simp add: run_static unmatched_plan_def unmatched_document_def)

lemma unmatched_inputs:
  "collect (map name_key [[(''name'', JStr ''A'')], [(''name'', JStr ''B'')]]) =
     Inr [JStr ''A'', JStr ''B'']
   \<and> ensure_logo_dir online None = Inr ()
   \<and> read_plan unmatched_plan = Inr [(JStr ''Core'', [(JStr ''Runtime'', [JStr ''Y'', JStr ''Z''])])]
   \<and> (\<forall>p \<in> set [[(''name'', JStr ''A'')], [(''name'', JStr ''B'')]].
        \<exists>item. item_of online None p = Inr item)"
  by (simp add: run_static unmatched_plan_def read_plan_def read_cat_def read_sub_def item_of_def)

lemma twice_run:
  "build_landscape_from_static online None [[(''name'', JStr ''A'')]] twice_plan Map.empty =
     Inr (twice_document, Map.empty)"
  by (simp add: run_static twice_plan_def twice_document_def)

lemma shadowed_run:
  "build_landscape_from_static online None
     [[(''name'', JStr ''A''), (''summary'', JStr ''one'')],
      [(''name'', JStr ''A''), (''summary'', JStr ''two'')]] [] Map.empty =
   Inr (shadowed_document, Map.empty)"
  by (simp add: run_static shadowed_document_def)

lemma dynamic_run:
  "build_landscape_from_dynamic online None
     [[(''name'', JStr ''A''), (''category'', JStr ''Tools/cli'')], [(''name'', JStr ''B'')]]
     Map.empty =
   Inr (JDict [(''categories'', JList
          [JDict [(''name'', JStr ''Tools''),
                  (''subcategories'', JList
                     [JDict [(''name'', JStr ''cli''),
                             (''items'', JList
                                [JDict [(''name'', JStr ''A''), (''description'', JNull),
                                        (''homepage_url'', JNull),
                                        (''logo'', JStr ''placeholder.svg'')]])]])],
           JDict [(''name'', JStr ''Unknown''),
                  (''subcategories'', JList
                     [JDict [(''name'', JStr ''Misc''),
                             (''items'', JList
                                [JDict [(''name'', JStr ''B''), (''description'', JNull),
                                        (''homepage_url'', JNull),
                                        (''logo'', JStr ''placeholder.svg'')]])]])]])],
        Map.empty)"
  by (simp add: build_landscape_from_dynamic_def ensure_logo_dir_def category_labels_def
      dict_get_def py_strip_def py_isspace_def dynamic_item_def add_repo_url_def
      resolve_logo_def append_item_def category_list_def category_entry_def subcat_entry_def
      placeholder_def)




section \<open>The claims about the static mode\<close>




text \<open>
  Claim C9. Whenever the static mode returns a document, every category of the plan and
  every subcategory of it is in the document, in plan order, also when none of the names
  it lists is loaded: a subcategory all of whose names miss the lookup is written with an
  empty list of items. A name that misses the lookup raises nothing: the run returns a
  document whenever the project names are hashable, the logo directory can be made, the
  plan can be read and every project has an item.
\<close>

theorem static_keeps_unmatched_plan_entries:
  "(build_landscape_from_static w logo_dir ps plan fs = Inr (doc, fs') \<longrightarrow>
      (\<exists>pbn pv. projects_by_name_loop ps [] = Inr pbn \<and> read_plan plan = Inr pv \<and>
         length pv = length plan \<and>
         take (length plan) (doc_categories doc) = map (layout_cat (the_item w logo_dir) pbn) pv \<and>
         map entry_name (take (length plan) (doc_categories doc)) =
           map (\<lambda>cat. dict_get cat ''name'' (JStr [])) plan \<and>
         map (\<lambda>c. map entry_name (category_subcategories c))
             (take (length plan) (doc_categories doc)) = map (\<lambda>cv. map fst (snd cv)) pv \<and>
         (\<forall>sub. (\<forall>k \<in> set (snd sub). map_of pbn k = None) \<longrightarrow>
            layout_sub (the_item w logo_dir) pbn sub =
            JDict [(''name'', fst sub), (''items'', JList [])])))
   \<and> (collect (map name_key ps) = Inr ks \<and> ensure_logo_dir w logo_dir = Inr () \<and>
      read_plan plan = Inr pv' \<and> (\<forall>p \<in> set ps. \<exists>item. item_of w logo_dir p = Inr item) \<longrightarrow>
      (\<exists>doc' fs''. build_landscape_from_static w logo_dir ps plan fs = Inr (doc', fs'')))"
proof (intro conjI impI)
  assume "build_landscape_from_static w logo_dir ps plan fs = Inr (doc, fs')"
  from static_layout_forward [OF this] obtain pbn pv where
    p: "projects_by_name_loop ps [] = Inr pbn" and
    pv: "read_plan plan = Inr pv" and
    d: "doc = static_layout (the_item w logo_dir) pbn pv"
    by blast
  from p pv read_plan_length [OF pv] static_plan_part(1,2,3) [OF pv d]
    layout_sub_unmatched [of _ pbn "the_item w logo_dir"]
  show "\<exists>pbn pv. projects_by_name_loop ps [] = Inr pbn \<and> read_plan plan = Inr pv \<and>
         length pv = length plan \<and>
         take (length plan) (doc_categories doc) = map (layout_cat (the_item w logo_dir) pbn) pv \<and>
         map entry_name (take (length plan) (doc_categories doc)) =
           map (\<lambda>cat. dict_get cat ''name'' (JStr [])) plan \<and>
         map (\<lambda>c. map entry_name (category_subcategories c))
             (take (length plan) (doc_categories doc)) = map (\<lambda>cv. map fst (snd cv)) pv \<and>
         (\<forall>sub. (\<forall>k \<in> set (snd sub). map_of pbn k = None) \<longrightarrow>
            layout_sub (the_item w logo_dir) pbn sub =
            JDict [(''name'', fst sub), (''items'', JList [])])"
    by blast
next
  assume "collect (map name_key ps) = Inr ks \<and> ensure_logo_dir w logo_dir = Inr () \<and>
      read_plan plan = Inr pv' \<and> (\<forall>p \<in> set ps. \<exists>item. item_of w logo_dir p = Inr item)"
  then show "\<exists>doc' fs''. build_landscape_from_static w logo_dir ps plan fs = Inr (doc', fs'')"
    using static_succeeds [of ps ks w logo_dir plan pv' fs] by blast
qed

theorem static_keeps_unmatched_plan_entries_witness:
  "(\<exists>pbn pv. projects_by_name_loop [[(''name'', JStr ''A'')], [(''name'', JStr ''B'')]] [] = Inr pbn \<and>
      read_plan unmatched_plan = Inr pv \<and>
      length pv = length unmatched_plan \<and>
      take (length unmatched_plan) (doc_categories unmatched_document) =
        map (layout_cat (the_item online None) pbn) pv \<and>
      map entry_name (take (length unmatched_plan) (doc_categories unmatched_document)) =
        map (\<lambda>cat. dict_get cat ''name'' (JStr [])) unmatched_plan \<and>
      map (\<lambda>c. map entry_name (category_subcategories c))
          (take (length unmatched_plan) (doc_categories unmatched_document)) =
        map (\<lambda>cv. map fst (snd cv)) pv \<and>
      (\<forall>sub. (\<forall>k \<in> set (snd sub). map_of pbn k = None) \<longrightarrow>
         layout_sub (the_item online None) pbn sub =
         JDict [(''name'', fst sub), (''items'', JList [])]))
   \<and> (\<exists>doc' fs''. build_landscape_from_static online None
          [[(''name'', JStr ''A'')], [(''name'', JStr ''B'')]] unmatched_plan Map.empty =
        Inr (doc', fs''))"
  using static_keeps_unmatched_plan_entries
    [of online None "[[(''name'', JStr ''A'')], [(''name'', JStr ''B'')]]" unmatched_plan
      Map.empty unmatched_document Map.empty "[JStr ''A'', JStr ''B'']"
      "[(JStr ''Core'', [(JStr ''Runtime'', [JStr ''Y'', JStr ''Z''])])]"]
    unmatched_run unmatched_inputs
  by blast

text \<open>
  Claim C8. Two projects of the same name raise nothing: the lookup is built whenever
  every name is hashable, it has one entry for each name, and it maps a name to the last
  project loaded under it. So whenever the static mode returns a document, every item
  of the document, under the plan or under \<^verbatim>\<open>Unmapped\<close>, is the item of a project that
  no later project shares its name with.
\<close>

theorem static_duplicate_name_last_wins:
  "(collect (map name_key ps) = Inr ks \<longrightarrow>
      (\<exists>pbn. projects_by_name_loop ps [] = Inr pbn \<and> map fst pbn = first_seen ks \<and>
         (\<forall>k. map_of pbn k = map_of (rev (zip ks ps)) k)))
   \<and> (build_landscape_from_static w logo_dir ps plan fs = Inr (doc, fs') \<longrightarrow>
       (\<exists>ks'. collect (map name_key ps) = Inr ks' \<and>
          (\<forall>item \<in> set (doc_items doc).
             \<exists>i < length ps. item_of w logo_dir (ps ! i) = Inr item \<and>
                (\<forall>j < length ps. i < j \<longrightarrow> ks' ! j \<noteq> ks' ! i))))"
proof (intro conjI impI)
  assume "collect (map name_key ps) = Inr ks"
  from lookup_last_wins [OF this]
  show "\<exists>pbn. projects_by_name_loop ps [] = Inr pbn \<and> map fst pbn = first_seen ks \<and>
         (\<forall>k. map_of pbn k = map_of (rev (zip ks ps)) k)"
    by blast
next
  assume "build_landscape_from_static w logo_dir ps plan fs = Inr (doc, fs')"
  from static_layout_forward [OF this] obtain ks pbn pv where
    ks: "collect (map name_key ps) = Inr ks" and
    p: "projects_by_name_loop ps [] = Inr pbn" and
    ok: "\<forall>kp \<in> set (found pbn (plan_refs pv)) \<union> set (leftover pbn pv).
               item_of w logo_dir (snd kp) = Inr (the_item w logo_dir (snd kp))" and
    d: "doc = static_layout (the_item w logo_dir) pbn pv"
    by blast
  from ks have len: "length ks = length ps" by (simp add: collect_length)
  from lookup_last_wins [OF ks] p have
    keys: "map fst pbn = first_seen ks" and
    lk: "\<forall>k. map_of pbn k = map_of (rev (zip ks ps)) k"
    by auto
  from keys have dist: "distinct (map fst pbn)" by simp
  have "\<exists>i < length ps. item_of w logo_dir (ps ! i) = Inr item \<and>
                (\<forall>j < length ps. i < j \<longrightarrow> ks ! j \<noteq> ks ! i)"
    if "item \<in> set (doc_items doc)" for item
  proof -
    from that d obtain kp where
      kp: "kp \<in> set (found pbn (plan_refs pv)) \<union> set (leftover pbn pv)" and
      it: "item = the_item w logo_dir (snd kp)"
      by (auto simp: doc_items_static_layout)
    from kp found_subset [of pbn "plan_refs pv"] have "kp \<in> set pbn"
      by (auto simp: leftover_def)
    with dist have "map_of pbn (fst kp) = Some (snd kp)" by simp
    with lk have "map_of (rev (zip ks ps)) (fst kp) = Some (snd kp)" by simp
    from map_of_rev_last [OF this] len obtain i where
      i: "i < length ps" "zip ks ps ! i = (fst kp, snd kp)"
      "\<forall>j < length ps. i < j \<longrightarrow> fst (zip ks ps ! j) \<noteq> fst kp"
      by auto
    from i(1,2) len have e: "ks ! i = fst kp" "ps ! i = snd kp" by auto
    from i(3) len e have "\<forall>j < length ps. i < j \<longrightarrow> ks ! j \<noteq> ks ! i" by simp
    moreover from ok kp it e have "item_of w logo_dir (ps ! i) = Inr item" by simp
    ultimately show ?thesis using i(1) by blast
  qed
  with ks show "\<exists>ks'. collect (map name_key ps) = Inr ks' \<and>
          (\<forall>item \<in> set (doc_items doc).
             \<exists>i < length ps. item_of w logo_dir (ps ! i) = Inr item \<and>
                (\<forall>j < length ps. i < j \<longrightarrow> ks' ! j \<noteq> ks' ! i))"
    by blast
qed

theorem static_duplicate_name_last_wins_witness:
  "(\<exists>pbn. projects_by_name_loop duplicate_projects [] = Inr pbn \<and>
      map fst pbn = first_seen [JStr ''A'', JStr ''B'', JStr ''A''] \<and>
      (\<forall>k. map_of pbn k = map_of (rev (zip [JStr ''A'', JStr ''B'', JStr ''A''] duplicate_projects)) k))
   \<and> (\<exists>ks'. collect (map name_key duplicate_projects) = Inr ks' \<and>
        (\<forall>item \<in> set (doc_items duplicate_document).
           \<exists>i < length duplicate_projects.
              item_of online None (duplicate_projects ! i) = Inr item \<and>
              (\<forall>j < length duplicate_projects. i < j \<longrightarrow> ks' ! j \<noteq> ks' ! i)))"
proof -
  have "collect (map name_key duplicate_projects) = Inr [JStr ''A'', JStr ''B'', JStr ''A'']"
    by (simp add: run_static duplicate_projects_def)
  with static_duplicate_name_last_wins
    [of duplicate_projects "[JStr ''A'', JStr ''B'', JStr ''A'']" online None duplicate_plan
      Map.empty duplicate_document Map.empty]
    duplicate_run
  show ?thesis by blast
qed

text \<open>
  Claim C2, as stated, fails in static mode. A plan that lists the name A in two
  subcategories puts the item of the one project A into the document twice; and of two
  loaded projects named A only the later one is in the document.
\<close>

theorem static_project_twice_or_missing:
  "build_landscape_from_static online None [[(''name'', JStr ''A'')]] twice_plan Map.empty =
     Inr (twice_document, Map.empty)
   \<and> doc_items twice_document =
       [JDict [(''name'', JStr ''A''), (''description'', JNull), (''homepage_url'', JNull),
               (''logo'', JStr ''placeholder.svg'')],
        JDict [(''name'', JStr ''A''), (''description'', JNull), (''homepage_url'', JNull),
               (''logo'', JStr ''placeholder.svg'')]]
   \<and> \<not> each_project_once online None [[(''name'', JStr ''A'')]] twice_document
   \<and> build_landscape_from_static online None
       [[(''name'', JStr ''A''), (''summary'', JStr ''one'')],
        [(''name'', JStr ''A''), (''summary'', JStr ''two'')]] [] Map.empty =
     Inr (shadowed_document, Map.empty)
   \<and> doc_items shadowed_document =
       [JDict [(''name'', JStr ''A''), (''description'', JStr ''two''), (''homepage_url'', JNull),
               (''logo'', JStr ''placeholder.svg'')]]
   \<and> \<not> each_project_once online None
       [[(''name'', JStr ''A''), (''summary'', JStr ''one'')],
        [(''name'', JStr ''A''), (''summary'', JStr ''two'')]] shadowed_document"
proof -
  have "doc_items twice_document =
       [JDict [(''name'', JStr ''A''), (''description'', JNull), (''homepage_url'', JNull),
               (''logo'', JStr ''placeholder.svg'')],
        JDict [(''name'', JStr ''A''), (''description'', JNull), (''homepage_url'', JNull),
               (''logo'', JStr ''placeholder.svg'')]]"
    by (simp add: read_doc twice_document_def)
  moreover have "\<not> each_project_once online None [[(''name'', JStr ''A'')]] twice_document"
    by (simp add: each_project_once_def read_doc twice_document_def item_of_def run_static)
  moreover have "doc_items shadowed_document =
       [JDict [(''name'', JStr ''A''), (''description'', JStr ''two''), (''homepage_url'', JNull),
               (''logo'', JStr ''placeholder.svg'')]]"
    by (simp add: read_doc shadowed_document_def)
  moreover have "\<not> each_project_once online None
       [[(''name'', JStr ''A''), (''summary'', JStr ''one'')],
        [(''name'', JStr ''A''), (''summary'', JStr ''two'')]] shadowed_document"
    by (simp add: each_project_once_def read_doc shadowed_document_def item_of_def run_static)
  ultimately show ?thesis
    using twice_run shadowed_run by simp
qed

text \<open>
  Claim C2, amended. Whenever the dynamic mode returns a document, every loaded project
  appears in it exactly once, and the document is \<open>dynamic_layout\<close>, which puts every
  item under the names of its project. Whenever the static mode returns a document, the
  loaded projects have pairwise distinct names and the plan lists no loaded name more
  than once, every loaded project appears in the document exactly once, and the document
  is \<open>static_layout\<close> for the project list as lookup, which puts an item under the
  subcategory that lists its name or else under \<^verbatim>\<open>Unmapped\<close>.
\<close>

theorem each_project_once_if_names_unique:
  "(build_landscape_from_dynamic w logo_dir ps fs = Inr (doc, fs') \<longrightarrow>
      each_project_once w logo_dir ps doc \<and>
      (\<exists>ls its. collect (map category_labels ps) = Inr ls \<and>
         collect (map (item_of w logo_dir) ps) = Inr its \<and>
         doc = dynamic_layout (zip ls its)))
   \<and> (build_landscape_from_static w logo_dir ps plan fs = Inr (doc', fs'') \<and>
      collect (map name_key ps) = Inr ks \<and> distinct ks \<and>
      read_plan plan = Inr pv \<and> distinct (filter (\<lambda>k. k \<in> set ks) (plan_refs pv)) \<longrightarrow>
      each_project_once w logo_dir ps doc' \<and>
      doc' = static_layout (the_item w logo_dir) (zip ks ps) pv)"
proof (rule conjI; rule impI)
  assume "build_landscape_from_dynamic w logo_dir ps fs = Inr (doc, fs')"
  with dynamic_layout_iff [of w logo_dir ps fs doc] obtain ls its where
    l: "collect (map category_labels ps) = Inr ls" and
    i: "collect (map (item_of w logo_dir) ps) = Inr its" and
    d: "doc = dynamic_layout (zip ls its)"
    by blast
  from l i have "length ls = length its" by (simp add: collect_length)
  then have "map snd (zip ls its) = its" by simp
  with d have "mset (doc_items doc) = mset its"
    by (simp add: mset_doc_items_dynamic_layout)
  then have "mset (map Inr (doc_items doc)) = mset (map Inr its)"
    by (simp only: mset_map)
  with collect_Inr_D [OF i] have "each_project_once w logo_dir ps doc"
    by (simp add: each_project_once_def)
  with l i d show "each_project_once w logo_dir ps doc \<and>
      (\<exists>ls its. collect (map category_labels ps) = Inr ls \<and>
         collect (map (item_of w logo_dir) ps) = Inr its \<and>
         doc = dynamic_layout (zip ls its))"
    by blast
next
  assume a: "build_landscape_from_static w logo_dir ps plan fs = Inr (doc', fs'') \<and>
      collect (map name_key ps) = Inr ks \<and> distinct ks \<and>
      read_plan plan = Inr pv \<and> distinct (filter (\<lambda>k. k \<in> set ks) (plan_refs pv))"
  from a static_layout_forward [of w logo_dir ps plan fs doc' fs''] obtain pbn where
    p: "projects_by_name_loop ps [] = Inr pbn" and
    ok: "\<forall>kp \<in> set (found pbn (plan_refs pv)) \<union> set (leftover pbn pv).
               item_of w logo_dir (snd kp) = Inr (the_item w logo_dir (snd kp))" and
    d: "doc' = static_layout (the_item w logo_dir) pbn pv"
    by auto
  from a have ks: "collect (map name_key ps) = Inr ks" by simp
  then have len: "length ks = length ps" by (simp add: collect_length)
  from a lookup_last_wins [OF ks] p have z: "pbn = zip ks ps" by auto
  with a len have dist: "distinct (map fst pbn)" and keys: "fst ` set pbn = set ks"
    by (simp_all flip: set_map)
  from a keys have "distinct (filter (\<lambda>k. k \<in> fst ` set pbn) (plan_refs pv))" by simp
  from found_leftover_partition [OF dist this]
  have part: "mset (found pbn (plan_refs pv) @ leftover pbn pv) = mset pbn" by simp
  have "map Inr (doc_items doc') =
        map (\<lambda>kp. item_of w logo_dir (snd kp)) (found pbn (plan_refs pv) @ leftover pbn pv)"
    using ok d by (simp add: doc_items_static_layout)
  then have "mset (map Inr (doc_items doc')) =
        image_mset (\<lambda>kp. item_of w logo_dir (snd kp)) (mset pbn)"
    using part by (simp only: mset_map)
  also have "\<dots> = mset (map (item_of w logo_dir) (map snd pbn))"
    by (simp add: comp_def multiset.map_comp)
  also from z len have "map snd pbn = ps" by simp
  finally have "each_project_once w logo_dir ps doc'"
    by (simp add: each_project_once_def)
  with d z show "each_project_once w logo_dir ps doc' \<and>
      doc' = static_layout (the_item w logo_dir) (zip ks ps) pv"
    by simp
qed

theorem each_project_once_if_names_unique_witness:
  "each_project_once online None
     [[(''name'', JStr ''A''), (''category'', JStr ''Tools/cli'')], [(''name'', JStr ''B'')]]
     (JDict [(''categories'', JList
          [JDict [(''name'', JStr ''Tools''),
                  (''subcategories'', JList
                     [JDict [(''name'', JStr ''cli''),
                             (''items'', JList
                                [JDict [(''name'', JStr ''A''), (''description'', JNull),
                                        (''homepage_url'', JNull),
                                        (''logo'', JStr ''placeholder.svg'')]])]])],
           JDict [(''name'', JStr ''Unknown''),
                  (''subcategories'', JList
                     [JDict [(''name'', JStr ''Misc''),
                             (''items'', JList
                                [JDict [(''name'', JStr ''B''), (''description'', JNull),
                                        (''homepage_url'', JNull),
                                        (''logo'', JStr ''placeholder.svg'')]])]])]])])
   \<and> each_project_once online None sample_projects sample_document"
proof -
  have d: "distinct [JStr ''A'', JStr ''B'', JStr ''C'']"
    "distinct (filter (\<lambda>k. k \<in> set [JStr ''A'', JStr ''B'', JStr ''C''])
       (plan_refs [(JStr ''Core'', [(JStr ''Runtime'', [JStr ''C'', JStr ''A'']),
                                   (JStr ''Empty'', [JStr ''Z''])]),
                   (JStr ''Extra'', [])]))"
    by (simp_all add: plan_refs_def)
  from each_project_once_if_names_unique
    [of online None
      "[[(''name'', JStr ''A''), (''category'', JStr ''Tools/cli'')], [(''name'', JStr ''B'')]]"
      Map.empty _ Map.empty] dynamic_run
  have 1: "each_project_once online None
     [[(''name'', JStr ''A''), (''category'', JStr ''Tools/cli'')], [(''name'', JStr ''B'')]]
     (JDict [(''categories'', JList
          [JDict [(''name'', JStr ''Tools''),
                  (''subcategories'', JList
                     [JDict [(''name'', JStr ''cli''),
                             (''items'', JList
                                [JDict [(''name'', JStr ''A''), (''description'', JNull),
                                        (''homepage_url'', JNull),
                                        (''logo'', JStr ''placeholder.svg'')]])]])],
           JDict [(''name'', JStr ''Unknown''),
                  (''subcategories'', JList
                     [JDict [(''name'', JStr ''Misc''),
                             (''items'', JList
                                [JDict [(''name'', JStr ''B''), (''description'', JNull),
                                        (''homepage_url'', JNull),
                                        (''logo'', JStr ''placeholder.svg'')]])]])]])])"
    by blast
  from each_project_once_if_names_unique
    [where w = online and logo_dir = None and ps = sample_projects and fs = Map.empty
      and plan = sample_plan and doc' = sample_document and fs'' = Map.empty
      and ks = "[JStr ''A'', JStr ''B'', JStr ''C'']"
      and pv = "[(JStr ''Core'', [(JStr ''Runtime'', [JStr ''C'', JStr ''A'']),
                                 (JStr ''Empty'', [JStr ''Z''])]),
                 (JStr ''Extra'', [])]"]
    sample_run sample_inputs d
  have 2: "each_project_once online None sample_projects sample_document"
    by blast
  from 1 2 show ?thesis ..
qed

end
